theory Spec2Isabelle
  imports Main
begin

section \<open>Python values, errors and the generator protocol\<close>

text \<open>
  Exceptions of the source are values. Every \<open>raise\<close> of the two modules raises
  \<open>ValueError\<close>; \<open>AssertionError\<close> is a failed \<open>assert\<close>; \<open>IndexError\<close>,
  \<open>KeyError\<close> and \<open>TypeError\<close> are what the interpreter itself raises on \<open>xs[0]\<close> of
  an empty tuple, on a missing key, and on calling \<open>None\<close> or passing unexpected arguments.
\<close>

datatype error =
    ValueError string
  | IndexError string
  | TypeError string
  | KeyError string
  | AssertionError

text \<open>
  A value handed to a partitioner is a Pandas dataframe or something else
  (\<open>isinstance(df, pd.DataFrame)\<close> tells them apart). A dataframe is the list of its rows,
  \<open>df.shape[0]\<close> is its length.
\<close>

datatype 'r pyvalue = DataFrame "'r list" | NotDataFrame

fun frame_of :: "'r pyvalue \<Rightarrow> 'r list option" where
  "frame_of (DataFrame rows) = Some rows"
| "frame_of NotDataFrame = None"

text \<open>
  \<open>df.iloc[a:b]\<close> follows Python's slice rule: a negative bound counts from the end, and
  both bounds are clipped to the range of the rows.
\<close>

definition slice_bound :: "nat \<Rightarrow> int \<Rightarrow> nat" where
  "slice_bound n i = (if i < 0 then nat (max 0 (int n + i)) else min n (nat i))"

definition iloc :: "'r list \<Rightarrow> int \<Rightarrow> int \<Rightarrow> 'r list" where
  "iloc df a b =
     (let lo = slice_bound (length df) a; hi = slice_bound (length df) b
      in take (hi - lo) (drop lo df))"

text \<open>
  What resuming a generator with \<open>send\<close> gives back: the yielded pair
  \<open>(actual_size, payload)\<close>, the end of the stream, or an exception.
\<close>

datatype 'p outcome = Yield int 'p | StopIteration | Raise error

section \<open>The dataframe partitioners (\<open>parfun/partition/dataframe.py\<close>)\<close>

subsection \<open>\<open>__validate_dfs_parameter\<close>\<close>

text \<open>
  The three checks in the order of the source. On success the model hands back the
  dataframes unwrapped, which is what the callers go on to use.
\<close>

definition validate_dfs_parameter :: "'r pyvalue list \<Rightarrow> error + 'r list list" where
  "validate_dfs_parameter dfs =
     (if length dfs < 1 then Inl (ValueError ''missing `dfs` parameter.'')
      else case those (map frame_of dfs) of
        None \<Rightarrow> Inl (ValueError ''all `dfs` values should be DataFrame instances.'')
      | Some frames \<Rightarrow>
          (case frames of
             [] \<Rightarrow> Inl (IndexError ''tuple index out of range'')
           | df0 # rest \<Rightarrow>
               (let total_size = length df0
                in if list_ex (\<lambda>df. length df \<noteq> total_size) rest
                   then Inl (ValueError ''all DataFrames should have the same number of rows.'')
                   else Inr frames)))"

subsection \<open>\<open>df_by_row\<close>\<close>

text \<open>
  The generator object of \<open>df_by_row\<close> between two resumptions. It is suspended at one
  of its three \<open>yield\<close>s, with the local variables that are still read afterwards:
  \<^item> \<open>AwaitSize\<close>: at \<open>chunk_size = yield\<close>, after the validation;
  \<^item> \<open>InLoop\<close>: at the \<open>yield\<close> inside the \<open>while\<close> loop, with \<open>total_size\<close>,
    \<open>range_start\<close> and \<open>range_end\<close>;
  \<^item> \<open>Last\<close>: at the \<open>yield\<close> of the remaining rows after the loop;
  \<^item> \<open>Finished\<close>: the body has returned or raised.
\<close>

datatype 'r row_gen =
    AwaitSize "'r list list"
  | InLoop "'r list list" int int int
  | Last
  | Finished

definition dfs_chunk :: "'r list list \<Rightarrow> int \<Rightarrow> int \<Rightarrow> 'r list list" where
  "dfs_chunk dfs rng_start rng_end = map (\<lambda>df. iloc df rng_start rng_end) dfs"

text \<open>
  The \<open>while\<close> test and what follows it, entered with the current values of the locals:
  either the loop body yields a chunk of \<open>chunk_size\<close> rows, or the loop is left and the
  rest is yielded, or nothing is left and the generator returns.
\<close>

definition row_loop ::
  "'r list list \<Rightarrow> int \<Rightarrow> int \<Rightarrow> int \<Rightarrow> int \<Rightarrow> 'r row_gen \<times> 'r list list outcome" where
  "row_loop dfs total_size range_start range_end chunk_size =
     (if range_end < total_size
      then (InLoop dfs total_size range_start range_end,
            Yield chunk_size (dfs_chunk dfs range_start range_end))
      else if range_start < total_size
      then (Last, Yield (total_size - range_start) (dfs_chunk dfs range_start total_size))
      else (Finished, StopIteration))"

fun send_row :: "'r row_gen \<Rightarrow> int \<Rightarrow> 'r row_gen \<times> 'r list list outcome" where
  "send_row (AwaitSize dfs) chunk_size =
     (case dfs of
        [] \<Rightarrow> (Finished, Raise (IndexError ''tuple index out of range''))
      | df0 # _ \<Rightarrow> row_loop dfs (int (length df0)) 0 chunk_size chunk_size)"
| "send_row (InLoop dfs total_size range_start range_end) chunk_size =
     row_loop dfs total_size range_end (range_end + chunk_size) chunk_size"
| "send_row Last chunk_size = (Finished, StopIteration)"
| "send_row Finished chunk_size = (Finished, StopIteration)"

text \<open>
  \<open>df_by_row(*dfs)\<close> followed by the priming \<open>next\<close>: the body runs the validation and
  stops at its first \<open>yield\<close>, or the validation raises.
\<close>

definition df_by_row :: "'r pyvalue list \<Rightarrow> error + 'r row_gen" where
  "df_by_row dfs =
     (case validate_dfs_parameter dfs of
        Inl e \<Rightarrow> Inl e
      | Inr frames \<Rightarrow> Inr (AwaitSize frames))"

subsection \<open>\<open>df_by_group\<close>\<close>

text \<open>
  \<open>zip(*iterables)\<close>: the tuples of the first, second, ... elements, as many as the
  shortest iterable has.
\<close>

definition zip_star :: "'a list list \<Rightarrow> 'a list list" where
  "zip_star ls =
     (case ls of
        [] \<Rightarrow> []
      | l # rest \<Rightarrow>
          map (\<lambda>i. map (\<lambda>xs. xs ! i) ls) [0 ..< fold min (map length rest) (length l)])"

text \<open>
  The generator object of \<open>df_by_group(...)(*dfs)\<close>. The live locals at both \<open>yield\<close>s
  that are resumed into the loop are \<open>len(dfs)\<close> and the iterator \<open>it\<close> over the
  remaining tuples of groups; \<open>chunked_group\<close> and \<open>chunked_group_size\<close> are empty and
  \<open>0\<close> at the first \<open>yield\<close> and are reset right after the second.
\<close>

datatype 'r group_gen =
    GAwaitSize nat "'r list list list"
  | GInLoop nat "'r list list list"
  | GLast
  | GFinished

definition concat_chunked_group_dfs :: "'r list list list \<Rightarrow> 'r list list" where
  "concat_chunked_group_dfs chunked_group = map concat chunked_group"

text \<open>
  The \<open>while True\<close> loop from \<open>next(it)\<close> on (\<open>grp\<close> is the source's \<open>group\<close>). \<open>StopIteration\<close> of the iterator is the
  empty list; the \<open>ValueError\<close> is not caught by the \<open>except StopIteration\<close>.
\<close>

fun group_loop ::
  "nat \<Rightarrow> 'r list list list \<Rightarrow> 'r list list list \<Rightarrow> int \<Rightarrow> int
     \<Rightarrow> 'r group_gen \<times> 'r list list outcome" where
  "group_loop n [] chunked_group chunked_group_size target_chunk_size =
     (if chunked_group_size > 0
      then (GLast, Yield chunked_group_size (concat_chunked_group_dfs chunked_group))
      else (GFinished, StopIteration))"
| "group_loop n (grp # it) chunked_group chunked_group_size target_chunk_size =
     (case grp of
        [] \<Rightarrow> (GFinished, Raise (IndexError ''tuple index out of range''))
      | g0 # others \<Rightarrow>
          (let group_size = int (length g0)
           in if list_ex (\<lambda>group_df. int (length group_df) \<noteq> group_size) others
              then (GFinished,
                    Raise (ValueError ''all dataframe group sizes should be identical.''))
              else
                (let chunked_group_size' = chunked_group_size + group_size;
                     chunked_group' =
                       map2 (\<lambda>chunked_dfs group_df. chunked_dfs @ [group_df]) chunked_group grp
                 in if chunked_group_size' \<ge> target_chunk_size
                    then (GInLoop n it,
                          Yield chunked_group_size' (concat_chunked_group_dfs chunked_group'))
                    else group_loop n it chunked_group' chunked_group_size' target_chunk_size)))"

fun send_group :: "'r group_gen \<Rightarrow> int \<Rightarrow> 'r group_gen \<times> 'r list list outcome" where
  "send_group (GAwaitSize n it) target_chunk_size =
     group_loop n it (replicate n []) 0 target_chunk_size"
| "send_group (GInLoop n it) target_chunk_size =
     group_loop n it (replicate n []) 0 target_chunk_size"
| "send_group GLast target_chunk_size = (GFinished, StopIteration)"
| "send_group GFinished target_chunk_size = (GFinished, StopIteration)"

text \<open>
  \<open>df.groupby(*args, **kwargs)\<close> is Pandas; the model takes it as the parameter
  \<open>groupby\<close>, the list of the groups of a dataframe in the order of iteration.
  \<open>df_by_group groupby dfs\<close> is \<open>df_by_group(*args, **kwargs)(*dfs)\<close> followed by the
  priming \<open>next\<close>.
\<close>

definition df_by_group ::
  "('r list \<Rightarrow> 'r list list) \<Rightarrow> 'r pyvalue list \<Rightarrow> error + 'r group_gen" where
  "df_by_group groupby dfs =
     (case validate_dfs_parameter dfs of
        Inl e \<Rightarrow> Inl e
      | Inr frames \<Rightarrow> Inr (GAwaitSize (length dfs) (zip_star (map groupby frames))))"

text \<open>
  Grouping by a key with \<open>sort=True\<close>, as \<open>groupby(by=...)\<close> does: one group per key,
  keys ascending, rows in their order.
\<close>

definition groupby_key :: "('r \<Rightarrow> 'k::linorder) \<Rightarrow> 'r list \<Rightarrow> 'r list list" where
  "groupby_key key df =
     map (\<lambda>k. filter (\<lambda>r. key r = k) df) (sort (remdups (map key df)))"

subsection \<open>The deprecated names\<close>

text \<open>
  Each logs one warning and returns what the new function returns. The model returns the
  warnings logged together with the result.
\<close>

definition dfs_by_row :: "'r pyvalue list \<Rightarrow> string list \<times> (error + 'r row_gen)" where
  "dfs_by_row dfs =
     ([''`dfs_by_row` will be removed in a future version, use `df_by_row` instead.''],
      df_by_row dfs)"

definition partition_dfs_by_chunk :: "'r pyvalue list \<Rightarrow> string list \<times> (error + 'r row_gen)" where
  "partition_dfs_by_chunk dfs =
     ([''`partition_dfs_by_chunk` will be removed in a future version, use `df_by_row` instead.''],
      df_by_row dfs)"

definition dfs_by_group ::
  "('r list \<Rightarrow> 'r list list)
     \<Rightarrow> string list \<times> ('r pyvalue list \<Rightarrow> error + 'r group_gen)" where
  "dfs_by_group groupby =
     ([''`dfs_by_group` will be removed in a future version, use `df_by_group` instead.''],
      df_by_group groupby)"

section \<open>Driving a partition generator\<close>

text \<open>
  Modelled from the spec: the controller's loop of section 4.2 (\<open>timed_partition\<close> is
  not among the sources). After the priming step the controller sends one requested size
  per partition and collects the pairs \<open>(actual_size, payload)\<close> until the generator
  signals the end of the stream or raises. The requested sizes are a list; when it runs
  out before the generator has ended, the run is \<open>Pending\<close>.
\<close>

datatype ending = Exhausted | Pending | Raised error

fun drive ::
  "('g \<Rightarrow> int \<Rightarrow> 'g \<times> 'p outcome) \<Rightarrow> 'g \<Rightarrow> int list \<Rightarrow> (int \<times> 'p) list \<times> ending" where
  "drive send g [] = ([], Pending)"
| "drive send g (s # ss) =
     (case send g s of
        (g', Yield n p) \<Rightarrow> (case drive send g' ss of (ys, e) \<Rightarrow> ((n, p) # ys, e))
      | (g', StopIteration) \<Rightarrow> ([], Exhausted)
      | (g', Raise err) \<Rightarrow> ([], Raised err))"

definition partitions ::
  "('g \<Rightarrow> int \<Rightarrow> 'g \<times> 'p outcome) \<Rightarrow> error + 'g \<Rightarrow> int list \<Rightarrow> (int \<times> 'p) list \<times> ending" where
  "partitions send primed sizes =
     (case primed of
        Inl e \<Rightarrow> ([], Raised e)
      | Inr g \<Rightarrow> drive send g sizes)"

text \<open>The partition stream of each partitioner: priming, then the controller's loop.\<close>

definition row_partitions :: "'r pyvalue list \<Rightarrow> int list \<Rightarrow> (int \<times> 'r list list) list \<times> ending" where
  "row_partitions dfs sizes = partitions send_row (df_by_row dfs) sizes"

definition group_partitions ::
  "('r list \<Rightarrow> 'r list list) \<Rightarrow> 'r pyvalue list \<Rightarrow> int list
     \<Rightarrow> (int \<times> 'r list list) list \<times> ending" where
  "group_partitions groupby dfs sizes = partitions send_group (df_by_group groupby dfs) sizes"

section \<open>The parallel function (\<open>tests/parafun/kernel/parallel_function.py\<close>)\<close>

subsection \<open>Calls, functions and signatures\<close>

text \<open>The arguments of a call: \<open>*args\<close> and \<open>**kwargs\<close>.\<close>

type_synonym 'v pyargs = "'v list \<times> (string \<times> 'v) list"

datatype param_kind =
  POSITIONAL_ONLY | POSITIONAL_OR_KEYWORD | VAR_POSITIONAL | KEYWORD_ONLY | VAR_KEYWORD

text \<open>
  Modelled from the spec: the class \<open>FunctionSignature\<close> (section 4.5) is not among the
  sources. The record has the attributes that \<open>parallel_function.py\<close> reads: \<open>args\<close>,
  the named parameters with the \<open>kind\<close> of each, and the two flags for \<open>*args\<close> and
  \<open>**kwargs\<close>.
\<close>

record FunctionSignature =
  args :: "(string \<times> param_kind) list"
  has_var_arg :: bool
  has_var_kwarg :: bool

text \<open>
  A Python function: its \<open>__name__\<close>, the signature that
  \<open>FunctionSignature.from_function\<close> reads off it, and what calling it gives, a value or
  an exception.
\<close>

record ('v, 'o) pyfunction =
  name :: string
  signature :: FunctionSignature
  run :: "'v pyargs \<Rightarrow> error + 'o"

subsection \<open>The fields of \<open>ParallelFunction\<close>\<close>

text \<open>
  A value given for \<open>initial_partition_size\<close> or \<open>fixed_partition_size\<close> other than
  \<open>None\<close>: an integer, a callable of the call's arguments, or anything else.
\<close>

datatype 'v partition_size =
  SizeInt int | SizeCallable "'v pyargs \<Rightarrow> error + int" | SizeOther

fun is_int :: "'v partition_size \<Rightarrow> bool" where
  "is_int (SizeInt n) = True"
| "is_int (SizeCallable f) = False"
| "is_int SizeOther = False"

fun callable :: "'v partition_size \<Rightarrow> bool" where
  "callable (SizeInt n) = False"
| "callable (SizeCallable f) = True"
| "callable SizeOther = False"

text \<open>\<open>partition_on\<close>: one name or a tuple of names.\<close>

datatype partition_on_arg = OnName string | OnNames "string list"

text \<open>
  The attributes that \<open>__init__\<close> passes on unchanged to \<open>__attrs_init__\<close> (its
  \<open>*args\<close> and \<open>**kwargs\<close>), and the whole object. \<open>func\<close> is the attribute
  \<open>function\<close>, \<open>partition_size_estimator\<close> and \<open>function_signature\<close> are the two
  private attributes.
\<close>

record ('v, 'o, 'e) attrs_kwargs =
  func :: "('v, 'o) pyfunction"
  combine_with :: "'o list \<Rightarrow> error + 'o"
  function_name :: "string option"
  profile :: bool
  trace_export :: "string option"
  partition_size_estimator_factory :: "unit \<Rightarrow> 'e"

record ('v, 'o, 'e, 'n, 'g) ParallelFunction = "('v, 'o, 'e) attrs_kwargs" +
  split :: "('n \<Rightarrow> error + 'n \<times> 'g) option"
  initial_partition_size :: "'v partition_size option"
  fixed_partition_size :: "'v partition_size option"
  partition_size_estimator :: "'e option"
  function_signature :: FunctionSignature

subsection \<open>What the module imports\<close>

text \<open>
  Modelled from the spec: the collaborators that \<open>parallel_function.py\<close> imports and
  that are not among the sources, as parameters of the model.
  \<^item> \<open>assign\<close>, \<open>merge\<close>, \<open>var_args\<close>, \<open>as_args_kwargs\<close>: \<open>FunctionSignature.assign\<close>
    and the operations of \<open>NamedArguments\<close> (sections 3 and 4.5);
  \<^item> \<open>multiple_arguments\<close>: the splitter behind the legacy \<open>partition_on\<close> and
    \<open>partition_with\<close>;
  \<^item> \<open>send\<close>: resuming a primed partition generator with a requested size
    (section 3, PartitionGenerator);
  \<^item> \<open>estimate\<close> and \<open>add_partition_trace\<close>: the two operations of a partition-size
    estimator, \<open>next_size\<close> and \<open>observe\<close> of section 4.3;
  \<^item> \<open>task_duration\<close>: the time a task takes on a partition, as the clock reports it;
  \<^item> \<open>allows_nested_tasks\<close>: the capability of a backend (section 4.4);
  \<^item> \<open>module_file\<close>: the \<open>__file__\<close> of the module.
\<close>

record ('v, 'n, 'g, 'e, 'b, 'pw) externals =
  assign :: "FunctionSignature \<Rightarrow> 'v pyargs \<Rightarrow> error + 'n"
  merge :: "'n \<Rightarrow> 'n \<Rightarrow> error + 'n"
  var_args :: "'n \<Rightarrow> 'v list"
  as_args_kwargs :: "'n \<Rightarrow> 'v pyargs"
  multiple_arguments :: "string list \<Rightarrow> 'pw \<Rightarrow> ('n \<Rightarrow> error + 'n \<times> 'g)"
  send :: "'g \<Rightarrow> int \<Rightarrow> 'g \<times> 'n outcome"
  estimate :: "'e \<Rightarrow> int"
  add_partition_trace :: "'e \<Rightarrow> int \<Rightarrow> nat \<Rightarrow> 'e"
  task_duration :: "'n \<Rightarrow> nat"
  allows_nested_tasks :: "'b \<Rightarrow> bool"
  module_file :: string

subsection \<open>\<open>ParallelFunction.__init__\<close>\<close>

definition partition_size_validator :: "string \<Rightarrow> 'v partition_size option \<Rightarrow> error option" where
  "partition_size_validator attribute_name v =
     (case v of
        None \<Rightarrow> None
      | Some x \<Rightarrow>
          if \<not> is_int x \<and> \<not> callable x
          then Some (ValueError
                 (''`'' @ attribute_name @ ''` should be either an integer, a callable or `None`.''))
          else None)"

definition validate_function_signature :: "FunctionSignature \<Rightarrow> error option" where
  "validate_function_signature sig =
     (if has_var_arg sig \<or> has_var_kwarg sig then None
      else if list_ex (\<lambda>arg. snd arg = POSITIONAL_ONLY) (args sig)
      then Some (ValueError ''parafun toolkit does not support positional only parameters yet.'')
      else None)"

text \<open>\<open>[kwargs[arg_name] for arg_name in partition_on]\<close>, a \<open>KeyError\<close> at the first
  missing name.\<close>

fun lookup_all :: "(string \<times> 'v) list \<Rightarrow> string list \<Rightarrow> error + 'v list" where
  "lookup_all kwargs [] = Inr []"
| "lookup_all kwargs (arg_name # rest) =
     (case map_of kwargs arg_name of
        None \<Rightarrow> Inl (KeyError arg_name)
      | Some v \<Rightarrow>
          (case lookup_all kwargs rest of
             Inl e \<Rightarrow> Inl e
           | Inr vs \<Rightarrow> Inr (v # vs)))"

text \<open>
  \<open>_legacy_partition_size\<close>: a callable is wrapped into one that takes keyword
  arguments only and passes the values of the \<open>partition_on\<close> names on as positional
  arguments; anything else is returned as it is.
\<close>

definition legacy_partition_size ::
  "string list \<Rightarrow> 'v partition_size option \<Rightarrow> 'v partition_size option" where
  "legacy_partition_size partition_on partition_size =
     (case partition_size of
        Some (SizeCallable f) \<Rightarrow>
          Some (SizeCallable (\<lambda>(pos, kwargs).
            if \<not> List.null pos
            then Inl (TypeError ''legacy_partition_size() takes 0 positional arguments'')
            else (case lookup_all kwargs partition_on of
                    Inl e \<Rightarrow> Inl e
                  | Inr partition_args \<Rightarrow> f (partition_args, []))))
      | other \<Rightarrow> other)"

text \<open>
  The first part of \<open>__init__\<close>: the checks on \<open>partition_on\<close> and \<open>partition_with\<close>
  and the legacy API rewritten into \<open>split\<close> and the two size options.
\<close>

definition legacy_arguments ::
  "('v, 'n, 'g, 'e, 'b, 'pw) externals \<Rightarrow> ('n \<Rightarrow> error + 'n \<times> 'g) option
     \<Rightarrow> partition_on_arg option \<Rightarrow> 'pw option
     \<Rightarrow> 'v partition_size option \<Rightarrow> 'v partition_size option
     \<Rightarrow> error + (('n \<Rightarrow> error + 'n \<times> 'g) option
                  \<times> 'v partition_size option \<times> 'v partition_size option)" where
  "legacy_arguments ext split_arg partition_on partition_with initial_size fixed_size =
     (if Option.is_none partition_on \<noteq> Option.is_none partition_with
      then Inl (ValueError
             ''`partition_on` and `partition_with` should be both simultaneously set or None.'')
      else
        (case partition_on of
           None \<Rightarrow> Inr (split_arg, initial_size, fixed_size)
         | Some on \<Rightarrow>
             (case partition_with of
                None \<Rightarrow> Inl AssertionError
              | Some pw \<Rightarrow>
                  if \<not> Option.is_none split_arg
                  then Inl (ValueError
                         ''`split` cannot be set with `partition_on` or `partition_with`.'')
                  else
                    (let names = (case on of OnName s \<Rightarrow> [s] | OnNames ss \<Rightarrow> ss)
                     in Inr (Some (multiple_arguments ext names pw),
                             legacy_partition_size names initial_size,
                             legacy_partition_size names fixed_size)))))"

text \<open>
  \<open>__init__\<close>: the legacy arguments, \<open>__attrs_init__\<close> with the validators of the two
  size options, the signature of the function, the check that the two size options are
  not both set, the estimator made by the factory when no fixed size is set, and the
  validation of the signature.
\<close>

definition init_ParallelFunction ::
  "('v, 'n, 'g, 'e, 'b, 'pw) externals \<Rightarrow> ('v, 'o, 'e) attrs_kwargs
     \<Rightarrow> ('n \<Rightarrow> error + 'n \<times> 'g) option \<Rightarrow> partition_on_arg option \<Rightarrow> 'pw option
     \<Rightarrow> 'v partition_size option \<Rightarrow> 'v partition_size option
     \<Rightarrow> error + ('v, 'o, 'e, 'n, 'g) ParallelFunction" where
  "init_ParallelFunction ext kwargs split_arg partition_on partition_with initial_size fixed_size =
     (case legacy_arguments ext split_arg partition_on partition_with initial_size fixed_size of
        Inl e \<Rightarrow> Inl e
      | Inr (split', initial', fixed') \<Rightarrow>
          (case partition_size_validator ''initial_partition_size'' initial' of
             Some e \<Rightarrow> Inl e
           | None \<Rightarrow>
          (case partition_size_validator ''fixed_partition_size'' fixed' of
             Some e \<Rightarrow> Inl e
           | None \<Rightarrow>
               (let sig = signature (func kwargs)
                in if \<not> Option.is_none initial' \<and> \<not> Option.is_none fixed'
                   then Inl (ValueError
                     ''`initial_partition_size` and `fixed_partition_size` cannot be set simultaneously.'')
                   else
                     (let estimator =
                            (if Option.is_none fixed'
                             then Some (partition_size_estimator_factory kwargs ())
                             else None)
                      in case validate_function_signature sig of
                           Some e \<Rightarrow> Inl e
                         | None \<Rightarrow>
                             Inr (attrs_kwargs.extend kwargs
                                    (ParallelFunction.fields split' initial' fixed' estimator sig)))))))"

subsection \<open>\<open>is_nested_parallelism\<close> and \<open>apply_function\<close>\<close>

text \<open>
  A frame of the call stack with the two attributes of its code object that are read,
  and the stack as the chain of \<open>f_back\<close> from the current frame. The loop returns at
  the first frame of \<open>apply_function\<close> of this module.
\<close>

record frame =
  co_name :: string
  co_filename :: string

fun is_nested_parallelism :: "string \<Rightarrow> frame list \<Rightarrow> bool" where
  "is_nested_parallelism file [] = False"
| "is_nested_parallelism file (fr # f_back) =
     (if co_name fr = ''apply_function'' \<and> co_filename fr = file then True
      else is_nested_parallelism file f_back)"

text \<open>
  Modelled from the spec: the record \<open>PartitionedTaskTrace\<close> (section 3) that travels
  with a partition is not among the sources; the model keeps the size of the partition and
  the duration of its task.
\<close>

record PartitionedTaskTrace =
  partition_size :: int
  task_time :: nat

text \<open>
  \<open>apply_function\<close> (\<open>part\<close> is its parameter \<open>partition\<close>). The function is called on the merged arguments in both branches
  of the test on \<open>backend\<close>; the backend only becomes the ambient backend of that call.
\<close>

definition apply_function ::
  "('v, 'n, 'g, 'e, 'b, 'pw) externals \<Rightarrow> ('v, 'o) pyfunction \<Rightarrow> 'n
     \<Rightarrow> 'n \<times> PartitionedTaskTrace \<Rightarrow> 'b option \<Rightarrow> error + 'o \<times> PartitionedTaskTrace" where
  "apply_function ext function non_partitioned_args part backend =
     (case part of
        (partitioned_args, trace) \<Rightarrow>
          (case merge ext non_partitioned_args partitioned_args of
             Inl e \<Rightarrow> Inl e
           | Inr merged_args \<Rightarrow>
               if length (var_args ext non_partitioned_args) \<noteq> 0 then Inl AssertionError
               else
                 (case run function (as_args_kwargs ext merged_args) of
                    Inl e \<Rightarrow> Inl e
                  | Inr result \<Rightarrow> Inr (result, trace))))"

subsection \<open>\<open>ParallelFunction.__call__\<close>\<close>

text \<open>
  What a call finds around it: the ambient backend of \<open>get_parallel_backend()\<close> and the
  call stack. What it leaves behind besides its result: the messages logged and the use
  made of the backend.
\<close>

record 'b environment =
  current_backend :: "'b option"
  call_stack :: "frame list"

datatype event =
    LogDebug string
  | LogWarning string
  | LogInfo string nat
  | SessionOpened
  | PreloadValue
  | TaskSubmitted
  | SessionClosed
  | ProfilePrinted
  | TraceExported string

text \<open>An f-string field of an optional string: \<open>None\<close> prints as \<open>None\<close>.\<close>

definition str_of :: "string option \<Rightarrow> string" where
  "str_of s = (case s of None \<Rightarrow> ''None'' | Some t \<Rightarrow> t)"

text \<open>
  \<open>_get_user_partition_sizes\<close>: a callable is called on the arguments of the call and
  stands for the integer it returns, anything else is returned as it is.
\<close>

definition user_partition_size ::
  "'v partition_size option \<Rightarrow> 'v pyargs \<Rightarrow> error + 'v partition_size option" where
  "user_partition_size v a =
     (case v of
        Some (SizeCallable f) \<Rightarrow>
          (case f a of Inl e \<Rightarrow> Inl e | Inr n \<Rightarrow> Inr (Some (SizeInt n)))
      | other \<Rightarrow> Inr other)"

definition get_user_partition_sizes ::
  "('v, 'o, 'e, 'n, 'g) ParallelFunction \<Rightarrow> 'v pyargs
     \<Rightarrow> error + 'v partition_size option \<times> 'v partition_size option" where
  "get_user_partition_sizes self a =
     (case user_partition_size (initial_partition_size self) a of
        Inl e \<Rightarrow> Inl e
      | Inr initial_size \<Rightarrow>
          (case user_partition_size (fixed_partition_size self) a of
             Inl e \<Rightarrow> Inl e
           | Inr fixed_size \<Rightarrow> Inr (initial_size, fixed_size)))"

text \<open>
  Modelled from the spec: the size request policy of section 4.2 (\<open>timed_partition\<close> is
  not among the sources). A fixed size is always requested; else the initial size, which
  the loop passes for the first partition only; else the estimator's recommendation.
\<close>

definition requested_size ::
  "('v, 'n, 'g, 'e, 'b, 'pw) externals \<Rightarrow> 'e option
     \<Rightarrow> 'v partition_size option \<Rightarrow> 'v partition_size option \<Rightarrow> error + int" where
  "requested_size ext estimator initial_size fixed_size =
     (case fixed_size of
        Some (SizeInt k) \<Rightarrow> Inr k
      | Some other \<Rightarrow> Inl (TypeError ''the partition size is not an integer'')
      | None \<Rightarrow>
          (case initial_size of
             Some (SizeInt k) \<Rightarrow> Inr k
           | Some other \<Rightarrow> Inl (TypeError ''the partition size is not an integer'')
           | None \<Rightarrow>
               (case estimator of
                  Some e \<Rightarrow> Inr (estimate ext e)
                | None \<Rightarrow> Inl (TypeError ''no partition size estimator''))))"

text \<open>
  Modelled from the spec: the adaptive partition-size loop of section 4.2 with steps 7 to
  9 of section 4.1, which \<open>timed_partition\<close>, \<open>parallel_timed_map\<close> and
  \<open>timed_combine_with\<close> (none among the sources) run as one lazy pipeline. The model
  runs it one partition at a time: request a size, resume the generator, run the task on
  the partition, let the estimator observe the size and the duration of the task. It ends
  with the results in the order of submission, or with the first exception of the
  generator or of a task. The loop need not end (a generator may yield for ever): the
  first argument bounds the number of partitions, and the result is \<open>None\<close> when the
  bound is reached. Returned with it: the estimator as the loop leaves it and the number
  of tasks submitted. The accumulator \<open>results\<close> is in reverse order.
\<close>

fun scatter_gather ::
  "nat \<Rightarrow> ('v, 'n, 'g, 'e, 'b, 'pw) externals
     \<Rightarrow> ('n \<times> PartitionedTaskTrace \<Rightarrow> error + 'o \<times> PartitionedTaskTrace)
     \<Rightarrow> 'g \<Rightarrow> 'e option \<Rightarrow> 'v partition_size option \<Rightarrow> 'v partition_size option
     \<Rightarrow> 'o list \<Rightarrow> nat \<Rightarrow> (error + 'o list) option \<times> 'e option \<times> nat" where
  "scatter_gather 0 ext task generator estimator initial_size fixed_size results submitted =
     (None, estimator, submitted)"
| "scatter_gather (Suc fuel) ext task generator estimator initial_size fixed_size results submitted =
     (case requested_size ext estimator initial_size fixed_size of
        Inl e \<Rightarrow> (Some (Inl e), estimator, submitted)
      | Inr size_req \<Rightarrow>
          (case send ext generator size_req of
             (generator', StopIteration) \<Rightarrow> (Some (Inr (rev results)), estimator, submitted)
           | (generator', Raise e) \<Rightarrow> (Some (Inl e), estimator, submitted)
           | (generator', Yield actual payload) \<Rightarrow>
               (let duration = task_duration ext payload;
                    trace = \<lparr>partition_size = actual, task_time = duration\<rparr>
                in case task (payload, trace) of
                     Inl e \<Rightarrow> (Some (Inl e), estimator, Suc submitted)
                   | Inr (result, trace') \<Rightarrow>
                       scatter_gather fuel ext task generator'
                         (map_option
                            (\<lambda>e. add_partition_trace ext e (partition_size trace') (task_time trace'))
                            estimator)
                         None fixed_size (result # results) (Suc submitted))))"

text \<open>An estimator, if there is one, after it has observed a list of pairs
  \<open>(size, duration)\<close> in order.\<close>

definition observe_all ::
  "('v, 'n, 'g, 'e, 'b, 'pw) externals \<Rightarrow> (int \<times> nat) list \<Rightarrow> 'e option \<Rightarrow> 'e option" where
  "observe_all ext observations estimator =
     map_option
       (\<lambda>e. foldl (\<lambda>e' (n, duration). add_partition_trace ext e' n duration) e observations)
       estimator"

text \<open>The number of tasks submitted to the backend, among the events of a call.\<close>

definition count_tasks :: "event list \<Rightarrow> nat" where
  "count_tasks events =
     length (filter (\<lambda>e. case e of TaskSubmitted \<Rightarrow> True | _ \<Rightarrow> False) events)"

text \<open>
  The parallel path of \<open>__call__\<close>, from the binding of the arguments to the combined
  result. The estimator handed to the pipeline is the one the object holds, and the
  pipeline updates that object in place: the model stores it back into \<open>self\<close>.
\<close>

definition parallel_call ::
  "nat \<Rightarrow> ('v, 'n, 'g, 'e, 'b, 'pw) externals \<Rightarrow> 'b \<Rightarrow> bool
     \<Rightarrow> ('v, 'o, 'e, 'n, 'g) ParallelFunction \<Rightarrow> 'v pyargs
     \<Rightarrow> (error + 'o) option \<times> ('v, 'o, 'e, 'n, 'g) ParallelFunction \<times> event list" where
  "parallel_call fuel ext backend allows_nested self a =
     (case assign ext (function_signature self) a of
        Inl e \<Rightarrow> (Some (Inl e), self, [])
      | Inr named_args \<Rightarrow>
          (case (case split self of
                   None \<Rightarrow> Inl (TypeError ''NoneType object is not callable'')
                 | Some split_function \<Rightarrow> split_function named_args) of
             Inl e \<Rightarrow> (Some (Inl e), self, [])
           | Inr (non_partitioned_args, partition_generator) \<Rightarrow>
               (case get_user_partition_sizes self a of
                  Inl e \<Rightarrow> (Some (Inl e), self, [SessionOpened, PreloadValue, SessionClosed])
                | Inr (initial_size, fixed_size) \<Rightarrow>
                    (let nested_backend = (if allows_nested then Some backend else None);
                         task = (\<lambda>part.
                           apply_function ext (func self) non_partitioned_args part
                             nested_backend)
                     in case scatter_gather fuel ext task partition_generator
                               (partition_size_estimator self) initial_size fixed_size [] 0 of
                          (outcome, estimator', submitted) \<Rightarrow>
                            (let self' = self\<lparr>partition_size_estimator := estimator'\<rparr>;
                                 session = [SessionOpened, PreloadValue]
                                           @ replicate submitted TaskSubmitted
                             in case outcome of
                                  None \<Rightarrow> (None, self', session)
                                | Some (Inl e) \<Rightarrow> (Some (Inl e), self', session @ [SessionClosed])
                                | Some (Inr results) \<Rightarrow>
                                    (case combine_with self results of
                                       Inl e \<Rightarrow>
                                         (Some (Inl e), self', session @ [SessionClosed])
                                     | Inr combined_result \<Rightarrow>
                                         (Some (Inr combined_result), self',
                                          session @ [SessionClosed]
                                          @ (if profile self then [ProfilePrinted] else [])
                                          @ (case trace_export self of
                                               None \<Rightarrow> []
                                             | Some path \<Rightarrow>
                                                 if List.null path then []
                                                 else [TraceExported path])
                                          @ [LogInfo (str_of (function_name self))
                                               submitted])))))))"

text \<open>
  \<open>__call__\<close>: the two sequential fallbacks, in the order of the source, then the
  parallel path. The result is what the call returns or raises (\<open>None\<close> when the
  pipeline does not end within the bound), the object after the call, and the events.
\<close>

definition call_ParallelFunction ::
  "nat \<Rightarrow> ('v, 'n, 'g, 'e, 'b, 'pw) externals \<Rightarrow> 'b environment
     \<Rightarrow> ('v, 'o, 'e, 'n, 'g) ParallelFunction \<Rightarrow> 'v pyargs
     \<Rightarrow> (error + 'o) option \<times> ('v, 'o, 'e, 'n, 'g) ParallelFunction \<times> event list" where
  "call_ParallelFunction fuel ext env self a =
     (let allows_nested =
            (case current_backend env of
               None \<Rightarrow> False
             | Some backend \<Rightarrow> allows_nested_tasks ext backend)
      in if is_nested_parallelism (module_file ext) (call_stack env) \<and> \<not> allows_nested
         then (Some (run (func self) a), self,
               [LogDebug (''backend does not support nested parallelism. Running ''
                          @ name (func self) @ '' sequentially.'')])
         else
           (case current_backend env of
              None \<Rightarrow>
                (Some (run (func self) a), self,
                 [LogWarning (''no parallel backend engine set, run `''
                              @ str_of (function_name self) @ ''(...)` sequentially.'')])
            | Some backend \<Rightarrow> parallel_call fuel ext backend allows_nested self a))"

section \<open>A concrete instance\<close>

text \<open>
  One function wrapped for parallel execution, with everything around it, on which the
  model is evaluated: \<open>total(df)\<close> sums the rows of a dataframe of numbers, its results
  are combined by their sum, and its argument \<open>df\<close> is split with \<open>df_by_row\<close>.
\<close>

definition total :: "(nat pyvalue, nat) pyfunction" where
  "total =
     \<lparr>name = ''total'',
      signature = \<lparr>args = [(''df'', POSITIONAL_OR_KEYWORD)],
                   has_var_arg = False, has_var_kwarg = False\<rparr>,
      run = (\<lambda>(pos, kwargs).
               case pos @ map snd kwargs of
                 [DataFrame rows] \<Rightarrow> Inr (sum_list rows)
               | _ \<Rightarrow> Inl (TypeError ''total() takes one dataframe''))\<rparr>"

text \<open>
  Modelled from the spec: \<open>NamedArguments\<close> (section 3) as the list of the names with
  their values; \<open>assign\<close> names the positional arguments after the parameters, in order;
  \<open>merge\<close> is the disjoint union, a duplicate being an error; the arguments go back into
  a call as keyword arguments.
\<close>

definition named_assign ::
  "FunctionSignature \<Rightarrow> 'v pyargs \<Rightarrow> error + (string \<times> 'v) list" where
  "named_assign sig a =
     (case a of
        (pos, kwargs) \<Rightarrow>
          if length pos > length (args sig) then Inl (TypeError ''too many positional arguments'')
          else Inr (zip (map fst (args sig)) pos @ kwargs))"

definition named_merge ::
  "(string \<times> 'v) list \<Rightarrow> (string \<times> 'v) list \<Rightarrow> error + (string \<times> 'v) list" where
  "named_merge a b =
     (if list_ex (\<lambda>k. k \<in> set (map fst b)) (map fst a)
      then Inl (ValueError ''duplicate argument'')
      else Inr (a @ b))"

text \<open>
  The splitter: the argument \<open>df\<close> is partitioned by \<open>df_by_row\<close>, primed; the other
  arguments are not partitioned. A partition is the slice, named \<open>df\<close> again.
\<close>

definition split_df_by_row ::
  "(string \<times> 'r pyvalue) list \<Rightarrow> error + (string \<times> 'r pyvalue) list \<times> 'r row_gen" where
  "split_df_by_row named_args =
     (case map_of named_args ''df'' of
        None \<Rightarrow> Inl (KeyError ''df'')
      | Some df \<Rightarrow>
          (case df_by_row [df] of
             Inl e \<Rightarrow> Inl e
           | Inr generator \<Rightarrow> Inr (filter (\<lambda>kv. fst kv \<noteq> ''df'') named_args, generator)))"

definition send_df :: "'r row_gen \<Rightarrow> int \<Rightarrow> 'r row_gen \<times> (string \<times> 'r pyvalue) list outcome" where
  "send_df generator size_req =
     (case send_row generator size_req of
        (generator', Yield n chunks) \<Rightarrow>
          (generator', Yield n (map (\<lambda>chunk. (''df'', DataFrame chunk)) chunks))
      | (generator', StopIteration) \<Rightarrow> (generator', StopIteration)
      | (generator', Raise e) \<Rightarrow> (generator', Raise e))"

text \<open>
  The estimator: the cold-start policy of section 4.3 as a strategy of its own, a size
  that starts at 1 and doubles with each observation. Its state is the list of the
  observations \<open>(size, duration)\<close>; the factory makes it with none.
\<close>

definition doubling_estimate :: "(int \<times> nat) list \<Rightarrow> int" where
  "doubling_estimate observations = 2 ^ length observations"

definition doubling_observe :: "(int \<times> nat) list \<Rightarrow> int \<Rightarrow> nat \<Rightarrow> (int \<times> nat) list" where
  "doubling_observe observations n duration = observations @ [(n, duration)]"

text \<open>
  The collaborators together. A backend is the answer it gives to
  \<open>allows_nested_tasks()\<close>; every task takes one unit of time.
\<close>

definition example_externals ::
  "(nat pyvalue, (string \<times> nat pyvalue) list, nat row_gen, (int \<times> nat) list, bool, unit)
     externals" where
  "example_externals =
     \<lparr>assign = named_assign,
      merge = named_merge,
      var_args = (\<lambda>named_args. []),
      as_args_kwargs = (\<lambda>named_args. ([], named_args)),
      multiple_arguments = (\<lambda>names partition_with. split_df_by_row),
      send = send_df,
      estimate = doubling_estimate,
      add_partition_trace = doubling_observe,
      task_duration = (\<lambda>payload. 1),
      allows_nested_tasks = (\<lambda>backend. backend),
      module_file = ''parafun/kernel/parallel_function.py''\<rparr>"

definition total_kwargs :: "(nat pyvalue, nat, (int \<times> nat) list) attrs_kwargs" where
  "total_kwargs =
     \<lparr>func = total,
      combine_with = (\<lambda>results. Inr (sum_list results)),
      function_name = Some ''total'',
      profile = False,
      trace_export = None,
      partition_size_estimator_factory = (\<lambda>u. [])\<rparr>"

text \<open>\<open>ParallelFunction(function=total, combine_with=sum, split=...)\<close>.\<close>

definition parallel_total ::
  "error + (nat pyvalue, nat, (int \<times> nat) list, (string \<times> nat pyvalue) list, nat row_gen)
             ParallelFunction" where
  "parallel_total =
     init_ParallelFunction example_externals total_kwargs (Some split_df_by_row)
       None None None None"

text \<open>
  A function with a positional-only parameter and \<open>*args\<close>,
  \<open>def first(df, /, *rest)\<close>, in place of \<open>total\<close>.
\<close>

definition first_kwargs :: "(nat pyvalue, nat, (int \<times> nat) list) attrs_kwargs" where
  "first_kwargs =
     total_kwargs\<lparr>func :=
       \<lparr>name = ''first'',
        signature = \<lparr>args = [(''df'', POSITIONAL_ONLY)],
                     has_var_arg = True, has_var_kwarg = False\<rparr>,
        run = run total\<rparr>\<rparr>"

text \<open>
  The same with \<open>**kwargs\<close> in place of \<open>*args\<close>,
  \<open>def first(df, /, **options)\<close>.
\<close>

definition options_kwargs :: "(nat pyvalue, nat, (int \<times> nat) list) attrs_kwargs" where
  "options_kwargs =
     total_kwargs\<lparr>func :=
       \<lparr>name = ''first'',
        signature = \<lparr>args = [(''df'', POSITIONAL_ONLY)],
                     has_var_arg = False, has_var_kwarg = True\<rparr>,
        run = run total\<rparr>\<rparr>"

text \<open>
  One backend that does not allow nested tasks, no caller on the stack; and the same
  from inside a task of the engine.
\<close>

definition plain_environment :: "bool environment" where
  "plain_environment = \<lparr>current_backend = Some False, call_stack = []\<rparr>"

definition nested_environment :: "bool environment" where
  "nested_environment =
     \<lparr>current_backend = Some False,
      call_stack =
        [\<lparr>co_name = ''total'', co_filename = ''user.py''\<rparr>,
         \<lparr>co_name = ''apply_function'', co_filename = ''parafun/kernel/parallel_function.py''\<rparr>]\<rparr>"

definition seven_rows :: "nat pyvalue pyargs" where
  "seven_rows = ([DataFrame [1, 2, 3, 4, 5, 6, 7]], [])"

text \<open>The first invocation under \<open>plain_environment\<close>, and the second one after it.\<close>

definition first_invocation where
  "first_invocation =
     (case parallel_total of
        Inl e \<Rightarrow> None
      | Inr self \<Rightarrow> Some (call_ParallelFunction 10 example_externals plain_environment self seven_rows))"

definition second_invocation where
  "second_invocation =
     (case first_invocation of
        None \<Rightarrow> None
      | Some (result, self, events) \<Rightarrow>
          Some (call_ParallelFunction 10 example_externals plain_environment self seven_rows))"

text \<open>The object that the constructor returns for \<open>parallel_total\<close>.\<close>

definition parallel_total_object ::
  "(nat pyvalue, nat, (int \<times> nat) list, (string \<times> nat pyvalue) list, nat row_gen)
     ParallelFunction" where
  "parallel_total_object =
     attrs_kwargs.extend total_kwargs
       (ParallelFunction.fields (Some split_df_by_row) None None (Some []) (signature total))"

text \<open>No backend configured.\<close>

definition no_backend_environment :: "bool environment" where
  "no_backend_environment = \<lparr>current_backend = None, call_stack = []\<rparr>"

text \<open>Of an invocation: the estimator it leaves in the object, and the number of tasks it
  submitted.\<close>

definition estimator_after where
  "estimator_after invocation =
     map_option (\<lambda>(result, self, events). partition_size_estimator self) invocation"

definition tasks_submitted where
  "tasks_submitted invocation =
     map_option
       (\<lambda>(result, self, events).
          length (filter (\<lambda>e. case e of TaskSubmitted \<Rightarrow> True | _ \<Rightarrow> False) events))
       invocation"

section \<open>Properties of the dataframe partitioners\<close>

subsection \<open>Validation\<close>

lemma those_frame_of_None: "those (map frame_of dfs) = None \<longleftrightarrow> NotDataFrame \<in> set dfs"
proof (induction dfs)
  case Nil
  then show ?case by simp
next
  case (Cons df dfs)
  then show ?case by (cases df) (auto split: option.splits)
qed

lemma those_frame_of_Some: "those (map frame_of dfs) = Some frames \<longleftrightarrow> dfs = map DataFrame frames"
proof (induction dfs arbitrary: frames)
  case Nil
  then show ?case by auto
next
  case (Cons df dfs)
  then show ?case by (cases df) (auto split: option.splits)
qed

lemma validate_frames:
  "validate_dfs_parameter (map DataFrame (df0 # rest)) =
     (if \<exists>df\<in>set rest. length df \<noteq> length df0
      then Inl (ValueError ''all DataFrames should have the same number of rows.'')
      else Inr (df0 # rest))"
proof -
  have "those (map frame_of (map DataFrame (df0 # rest))) = Some (df0 # rest)"
    using those_frame_of_Some by blast
  then show ?thesis
    unfolding validate_dfs_parameter_def by (simp add: list_ex_iff)
qed

lemma validate_Inr:
  assumes "validate_dfs_parameter dfs = Inr frames"
  shows "dfs = map DataFrame frames \<and>
      (\<exists>df0 rest. frames = df0 # rest \<and> (\<forall>df\<in>set rest. length df = length df0))"
proof (cases "those (map frame_of dfs)")
  case None
  with assms show ?thesis by (simp add: validate_dfs_parameter_def split: if_splits)
next
  case (Some fs)
  then have dfs: "dfs = map DataFrame fs" by (simp add: those_frame_of_Some)
  show ?thesis
  proof (cases fs)
    case Nil
    with assms dfs show ?thesis by (simp add: validate_dfs_parameter_def)
  next
    case (Cons df0 rest)
    from assms have "validate_dfs_parameter (map DataFrame (df0 # rest)) = Inr frames"
      using dfs Cons by simp
    then have "frames = df0 # rest \<and> (\<forall>df\<in>set rest. length df = length df0)"
      unfolding validate_frames by (auto split: if_splits)
    with dfs Cons show ?thesis by simp
  qed
qed

lemma validate_Inl_ValueError:
  assumes "dfs = [] \<or> NotDataFrame \<in> set dfs \<or>
           (\<exists>xs ys. DataFrame xs \<in> set dfs \<and> DataFrame ys \<in> set dfs \<and> length xs \<noteq> length ys)"
  shows "\<exists>msg. validate_dfs_parameter dfs = Inl (ValueError msg)"
proof (cases "dfs = []")
  case True
  then show ?thesis by (simp add: validate_dfs_parameter_def)
next
  case ne: False
  show ?thesis
  proof (cases "those (map frame_of dfs)")
    case None
    with ne show ?thesis by (simp add: validate_dfs_parameter_def)
  next
    case (Some frames)
    then have dfs: "dfs = map DataFrame frames" by (simp add: those_frame_of_Some)
    with ne obtain df0 rest where fr: "frames = df0 # rest" by (cases frames) auto
    from Some have "NotDataFrame \<notin> set dfs" using those_frame_of_None[of dfs] by simp
    with assms ne obtain xs ys where
      xy: "DataFrame xs \<in> set dfs" "DataFrame ys \<in> set dfs" "length xs \<noteq> length ys" by blast
    then have "xs \<in> set frames" "ys \<in> set frames" using dfs by auto
    with xy(3) have "\<exists>df\<in>set rest. length df \<noteq> length df0"
      unfolding fr by (metis set_ConsD)
    then show ?thesis unfolding dfs fr validate_frames by simp
  qed
qed

subsection \<open>Steps of the generators\<close>

lemma drive_length: "drive sendf g sizes = (ys, e) \<Longrightarrow> length ys \<le> length sizes"
proof (induction sizes arbitrary: g ys)
  case Nil
  then show ?case by simp
next
  case (Cons s ss)
  then show ?case
    by (fastforce split: prod.splits outcome.splits)
qed

lemma drive_pointwise:
  assumes step: "\<And>g s g' n p. sendf g s = (g', Yield n p) \<Longrightarrow> Q s n"
  shows "drive sendf g sizes = (ys, e) \<Longrightarrow> i < length ys \<Longrightarrow> Q (sizes ! i) (fst (ys ! i))"
proof (induction sizes arbitrary: g ys i e)
  case Nil
  then show ?case by simp
next
  case (Cons s ss)
  obtain g' out where snd: "sendf g s = (g', out)" by (cases "sendf g s")
  show ?case
  proof (cases out)
    case (Yield n p)
    obtain zs e' where rec: "drive sendf g' ss = (zs, e')" by (cases "drive sendf g' ss")
    with Cons.prems snd Yield have ys: "ys = (n, p) # zs" by simp
    show ?thesis
    proof (cases i)
      case 0
      with ys step[of g s g' n p] snd Yield show ?thesis by simp
    next
      case (Suc k)
      with Cons.prems ys have "k < length zs" by simp
      from Cons.IH[OF rec this] Suc ys show ?thesis by simp
    qed
  next
    case StopIteration
    with Cons.prems snd show ?thesis by simp
  next
    case (Raise err)
    with Cons.prems snd show ?thesis by simp
  qed
qed

lemma send_row_bound:
  assumes "send_row g s = (g', Yield n p)" and "1 \<le> s"
  shows "1 \<le> n \<and> n \<le> s"
proof (cases g)
  case (AwaitSize dfs)
  with assms show ?thesis
    by (cases dfs) (auto simp: row_loop_def Suc_le_eq split: if_splits)
next
  case (InLoop dfs total_size range_start range_end)
  with assms show ?thesis
    by (auto simp: row_loop_def split: if_splits)
next
  case Last
  with assms show ?thesis by simp
next
  case Finished
  with assms show ?thesis by simp
qed

lemma group_loop_lower:
  assumes "group_loop k it cg cgs target = (g', Yield n p)" and "0 \<le> cgs" and "1 \<le> target"
  shows "1 \<le> n"
  using assms
proof (induction it arbitrary: cg cgs)
  case Nil
  then show ?case by (auto split: if_splits)
next
  case (Cons grp it)
  show ?case
  proof (cases grp)
    case Nil
    with Cons.prems show ?thesis by simp
  next
    case (Cons g0 others)
    show ?thesis
    proof (cases "cgs + int (length g0) \<ge> target")
      case True
      with Cons.prems \<open>grp = g0 # others\<close> show ?thesis
        by (auto simp: Let_def split: if_splits)
    next
      case False
      with Cons.prems(1) \<open>grp = g0 # others\<close>
      have "group_loop k it (map2 (\<lambda>chunked_dfs group_df. chunked_dfs @ [group_df]) cg grp)
              (cgs + int (length g0)) target = (g', Yield n p)"
        by (auto simp: Let_def split: if_splits)
      from Cons.IH[OF this] Cons.prems show ?thesis by simp
    qed
  qed
qed

lemma send_group_lower:
  assumes "send_group g s = (g', Yield n p)" and "1 \<le> s"
  shows "1 \<le> n"
proof (cases g)
  case (GAwaitSize k it)
  with assms group_loop_lower[of k it "replicate k []" 0 s g' n p] show ?thesis by simp
next
  case (GInLoop k it)
  with assms group_loop_lower[of k it "replicate k []" 0 s g' n p] show ?thesis by simp
next
  case GLast
  with assms show ?thesis by simp
next
  case GFinished
  with assms show ?thesis by simp
qed

subsection \<open>Row slices\<close>

lemma iloc_inside:
  assumes "0 \<le> a" "a \<le> b" "b \<le> int (length df)"
  shows "iloc df a b = take (nat (b - a)) (drop (nat a) df)"
proof -
  have "slice_bound (length df) a = nat a" "slice_bound (length df) b = nat b"
    using assms by (auto simp: slice_bound_def)
  moreover have "nat b - nat a = nat (b - a)" using assms by linarith
  ultimately show ?thesis by (simp add: iloc_def)
qed

lemma chunk_then_rest:
  assumes "0 \<le> a" "a \<le> b" "b \<le> int (length df)"
  shows "iloc df a b @ drop (nat b) df = drop (nat a) df"
proof -
  have eq: "nat (b - a) + nat a = nat b" using assms by linarith
  have "take (nat (b - a)) (drop (nat a) df) @ drop (nat (b - a)) (drop (nat a) df) = drop (nat a) df"
    by (rule append_take_drop_id)
  then show ?thesis
    unfolding iloc_inside[OF assms] by (simp only: drop_drop eq)
qed

lemma chunk_to_end:
  assumes "0 \<le> a" "a \<le> int (length df)"
  shows "iloc df a (int (length df)) = drop (nat a) df"
  using assms by (simp add: iloc_inside)

lemma drive_row_Last:
  "drive send_row Last sizes = ([], if sizes = [] then Pending else Exhausted)"
  by (cases sizes) simp_all

lemma drive_row_AwaitSize:
  "drive send_row (AwaitSize (df0 # rest)) sizes =
   drive send_row (InLoop (df0 # rest) (int (length df0)) 0 0) sizes"
  by (cases sizes) simp_all

lemma drive_row_InLoop:
  assumes len: "\<forall>df\<in>set dfs. length df = N"
  shows "\<forall>s\<in>set sizes. 1 \<le> s \<Longrightarrow> 0 \<le> re \<Longrightarrow> re \<le> int N \<Longrightarrow>
         drive send_row (InLoop dfs (int N) rs re) sizes = (ys, e) \<Longrightarrow>
         (e = Exhausted \<or> (e = Pending \<and> int (length sizes) \<le> int N - re)) \<and>
         (sizes \<noteq> [] \<and> re < int N \<longrightarrow> ys \<noteq> []) \<and>
         (e = Exhausted \<longrightarrow>
            sum_list (map fst ys) = int N - re \<and>
            (\<forall>j<length dfs. concat (map (\<lambda>y. snd y ! j) ys) = drop (nat re) (dfs ! j)))"
proof (induction sizes arbitrary: rs re ys e)
  case Nil
  then show ?case by simp
next
  case (Cons s ss)
  have s: "1 \<le> s" and ss: "\<forall>s\<in>set ss. 1 \<le> s" using Cons.prems(1) by simp_all
  consider (loop) "re + s < int N" | (rest) "\<not> re + s < int N" "re < int N"
    | (stop) "\<not> re + s < int N" "\<not> re < int N" by blast
  then show ?case
  proof cases
    case loop
    obtain zs e' where rec: "drive send_row (InLoop dfs (int N) re (re + s)) ss = (zs, e')"
      by (cases "drive send_row (InLoop dfs (int N) re (re + s)) ss")
    with Cons.prems(4) loop
    have ys: "ys = (s, dfs_chunk dfs re (re + s)) # zs" and e: "e = e'"
      by (simp_all add: row_loop_def)
    have ih: "(e' = Exhausted \<or> (e' = Pending \<and> int (length ss) \<le> int N - (re + s))) \<and>
         (e' = Exhausted \<longrightarrow>
            sum_list (map fst zs) = int N - (re + s) \<and>
            (\<forall>j<length dfs. concat (map (\<lambda>y. snd y ! j) zs) = drop (nat (re + s)) (dfs ! j)))"
      using Cons.IH[OF ss _ _ rec] Cons.prems(2) s loop by simp
    have chunks: "\<forall>j<length dfs.
        dfs_chunk dfs re (re + s) ! j @ drop (nat (re + s)) (dfs ! j) = drop (nat re) (dfs ! j)"
    proof (intro allI impI)
      fix j assume j: "j < length dfs"
      then have "int (length (dfs ! j)) = int N" using len by simp
      then have "iloc (dfs ! j) re (re + s) @ drop (nat (re + s)) (dfs ! j) = drop (nat re) (dfs ! j)"
        using chunk_then_rest[of re "re + s" "dfs ! j"] Cons.prems(2) s loop by simp
      with j show "dfs_chunk dfs re (re + s) ! j @ drop (nat (re + s)) (dfs ! j) = drop (nat re) (dfs ! j)"
        by (simp add: dfs_chunk_def)
    qed
    show ?thesis
      using ih chunks s unfolding ys e by auto
  next
    case rest
    from Cons.prems(4) rest
    have ys: "ys = [(int N - re, dfs_chunk dfs re (int N))]"
      and e: "e = (if ss = [] then Pending else Exhausted)"
      by (simp_all add: row_loop_def drive_row_Last)
    have chunks: "\<forall>j<length dfs. dfs_chunk dfs re (int N) ! j = drop (nat re) (dfs ! j)"
    proof (intro allI impI)
      fix j assume j: "j < length dfs"
      then have "length (dfs ! j) = N" using len by simp
      then have "iloc (dfs ! j) re (int N) = drop (nat re) (dfs ! j)"
        using chunk_to_end[of re "dfs ! j"] Cons.prems(2) rest by simp
      with j show "dfs_chunk dfs re (int N) ! j = drop (nat re) (dfs ! j)"
        by (simp add: dfs_chunk_def)
    qed
    show ?thesis
      using chunks rest unfolding ys e by auto
  next
    case stop
    from Cons.prems(4) stop have ys: "ys = []" and e: "e = Exhausted"
      by (simp_all add: row_loop_def)
    from stop Cons.prems(3) have re: "re = int N" by simp
    have "\<forall>j<length dfs. drop N (dfs ! j) = []" using len by simp
    then show ?thesis unfolding ys e re by simp
  qed
qed

subsection \<open>Size bound\<close>

lemma partitions_pointwise:
  assumes step: "\<forall>g s g' n p. sendf g s = (g', Yield n p) \<and> 1 \<le> s \<longrightarrow> Q s n"
    and pos: "\<forall>s\<in>set sizes. 1 \<le> s"
    and i: "i < length (fst (partitions sendf primed sizes))"
  shows "Q (sizes ! i) (fst (fst (partitions sendf primed sizes) ! i))"
proof (cases primed)
  case (Inl err)
  with i show ?thesis by (simp add: partitions_def)
next
  case (Inr g)
  obtain ys e where run: "drive sendf g sizes = (ys, e)" by (cases "drive sendf g sizes")
  with Inr i have i': "i < length ys" by (simp add: partitions_def)
  with drive_length[OF run] have "sizes ! i \<in> set sizes" by simp
  with pos have "1 \<le> sizes ! i" by blast
  moreover have "1 \<le> sizes ! i \<longrightarrow> Q (sizes ! i) (fst (ys ! i))"
    using drive_pointwise[where Q = "\<lambda>s n. 1 \<le> s \<longrightarrow> Q s n", OF _ run i'] step by blast
  ultimately show ?thesis using Inr run by (simp add: partitions_def)
qed

text \<open>
  Claim C1, as amended. For every sequence of positive requested sizes, every partition
  that \<open>df_by_row\<close> yields has an \<open>actual_size\<close> of at least 1 and at most the size
  requested for it, and every partition that the generator of \<open>df_by_group\<close> yields has
  an \<open>actual_size\<close> of at least 1. (\<open>df_by_group\<close> never splits a group, so its
  partitions are not bounded by the requested size.)
\<close>

theorem partition_size_bound:
  assumes "\<forall>s\<in>set sizes. 1 \<le> s"
  shows "(\<forall>i<length (fst (row_partitions dfs sizes)).
            1 \<le> fst (fst (row_partitions dfs sizes) ! i) \<and>
            fst (fst (row_partitions dfs sizes) ! i) \<le> sizes ! i) \<and>
         (\<forall>i<length (fst (group_partitions groupby dfs sizes)).
            1 \<le> fst (fst (group_partitions groupby dfs sizes) ! i))"
proof -
  have row: "\<forall>g s g' n (p :: 'a list list).
               send_row g s = (g', Yield n p) \<and> 1 \<le> s \<longrightarrow> 1 \<le> n \<and> n \<le> s"
    using send_row_bound by blast
  have grp: "\<forall>g s g' n (p :: 'a list list).
               send_group g s = (g', Yield n p) \<and> 1 \<le> s \<longrightarrow> 1 \<le> n"
    using send_group_lower by blast
  have "\<And>i. i < length (fst (row_partitions dfs sizes)) \<Longrightarrow>
            1 \<le> fst (fst (row_partitions dfs sizes) ! i) \<and>
            fst (fst (row_partitions dfs sizes) ! i) \<le> sizes ! i"
    unfolding row_partitions_def
    by (rule partitions_pointwise[where Q = "\<lambda>s n. 1 \<le> n \<and> n \<le> s", OF row assms])
  moreover have "\<And>i. i < length (fst (group_partitions groupby dfs sizes)) \<Longrightarrow>
            1 \<le> fst (fst (group_partitions groupby dfs sizes) ! i)"
    unfolding group_partitions_def
    by (rule partitions_pointwise[where Q = "\<lambda>s n. 1 \<le> n", OF grp assms])
  ultimately show ?thesis by blast
qed

theorem partition_size_bound_witness:
  "map fst (fst (row_partitions [DataFrame [5, 5, 5, 6, 6 :: nat]] [2, 2, 2])) = [2, 2, 1] \<and>
   1 \<le> fst (fst (row_partitions [DataFrame [5, 5, 5, 6, 6 :: nat]] [2, 2, 2]) ! 2) \<and>
   fst (fst (row_partitions [DataFrame [5, 5, 5, 6, 6 :: nat]] [2, 2, 2]) ! 2) \<le> [2, 2, 2] ! 2 \<and>
   map fst (fst (group_partitions (groupby_key id) [DataFrame [5, 5, 5, 6, 6 :: nat]] [2, 2, 2])) = [3, 2] \<and>
   1 \<le> fst (fst (group_partitions (groupby_key id) [DataFrame [5, 5, 5, 6, 6 :: nat]] [2, 2, 2]) ! 1)"
proof -
  have pos: "\<forall>s\<in>set [2, 2, 2 :: int]. 1 \<le> s" by simp
  have r: "map fst (fst (row_partitions [DataFrame [5, 5, 5, 6, 6 :: nat]] [2, 2, 2])) = [2, 2, 1]"
    by code_simp
  have g: "map fst (fst (group_partitions (groupby_key id) [DataFrame [5, 5, 5, 6, 6 :: nat]] [2, 2, 2])) = [3, 2]"
    by code_simp
  have "length (map fst (fst (row_partitions [DataFrame [5, 5, 5, 6, 6 :: nat]] [2, 2, 2]))) = 3"
    unfolding r by simp
  then have lr: "2 < length (fst (row_partitions [DataFrame [5, 5, 5, 6, 6 :: nat]] [2, 2, 2]))"
    by simp
  have "length (map fst (fst (group_partitions (groupby_key id) [DataFrame [5, 5, 5, 6, 6 :: nat]] [2, 2, 2]))) = 2"
    unfolding g by simp
  then have lg: "1 < length (fst (group_partitions (groupby_key id) [DataFrame [5, 5, 5, 6, 6 :: nat]] [2, 2, 2]))"
    by simp
  from partition_size_bound[OF pos, of "[DataFrame [5, 5, 5, 6, 6 :: nat]]" "groupby_key id"]
  show ?thesis using pos r g lr lg by blast
qed

text \<open>
  Claim C1 as stated fails for \<open>df_by_group\<close>: one group of three rows, requested
  size 1, is yielded whole with \<open>actual_size = 3\<close>.
\<close>

theorem partition_size_bound_group_counterexample:
  "map fst (fst (group_partitions (groupby_key id) [DataFrame [5, 5, 5 :: nat]] [1, 1])) = [3] \<and>
   \<not> fst (fst (group_partitions (groupby_key id) [DataFrame [5, 5, 5 :: nat]] [1, 1]) ! 0) \<le> [1, 1] ! 0"
  by code_simp

subsection \<open>Cover\<close>

lemma valid_dfs_frames:
  assumes "dfs \<noteq> []" and "\<forall>df\<in>set dfs. \<exists>rows. df = DataFrame rows \<and> length rows = n"
  obtains df0 rest where "dfs = map DataFrame (df0 # rest)" "\<forall>df\<in>set (df0 # rest). length df = n"
    "validate_dfs_parameter dfs = Inr (df0 # rest)"
proof -
  from assms(2) have "\<exists>frames. dfs = map DataFrame frames \<and> (\<forall>df\<in>set frames. length df = n)"
  proof (induction dfs)
    case Nil
    then show ?case by simp
  next
    case (Cons df dfs)
    then obtain frames where f: "dfs = map DataFrame frames" "\<forall>df\<in>set frames. length df = n"
      by auto
    from Cons.prems obtain rows where r: "df = DataFrame rows" "length rows = n" by auto
    have "df # dfs = map DataFrame (rows # frames) \<and> (\<forall>df\<in>set (rows # frames). length df = n)"
      using f r by simp
    then show ?case by (rule exI[where x = "rows # frames"])
  qed
  then obtain frames where f: "dfs = map DataFrame frames" "\<forall>df\<in>set frames. length df = n"
    by blast
  with assms(1) obtain df0 rest where fr: "frames = df0 # rest" by (cases frames) auto
  have "validate_dfs_parameter (map DataFrame (df0 # rest)) = Inr (df0 # rest)"
    unfolding validate_frames using f(2) fr by simp
  with f fr that show ?thesis by blast
qed

lemma row_partitions_cover:
  assumes "dfs \<noteq> []" and "\<forall>df\<in>set dfs. \<exists>rows. df = DataFrame rows \<and> length rows = n"
    and "\<forall>s\<in>set sizes. 1 \<le> s" and run: "row_partitions dfs sizes = (ys, e)"
  shows "(n < length sizes \<longrightarrow> e = Exhausted) \<and>
         (e = Exhausted \<longrightarrow>
            sum_list (map fst ys) = int n \<and>
            (\<forall>j<length dfs. DataFrame (concat (map (\<lambda>y. snd y ! j) ys)) = dfs ! j) \<and>
            (1 \<le> n \<longrightarrow> ys \<noteq> []))"
proof -
  from assms(1,2) obtain df0 rest where
    dfs: "dfs = map DataFrame (df0 # rest)" and len: "\<forall>df\<in>set (df0 # rest). length df = n"
    and val: "validate_dfs_parameter dfs = Inr (df0 # rest)"
    by (rule valid_dfs_frames)
  have n: "length df0 = n" using len by simp
  from run val have "drive send_row (AwaitSize (df0 # rest)) sizes = (ys, e)"
    by (simp add: row_partitions_def partitions_def df_by_row_def)
  then have d: "drive send_row (InLoop (df0 # rest) (int n) 0 0) sizes = (ys, e)"
    by (simp add: drive_row_AwaitSize n)
  have inv: "(e = Exhausted \<or> (e = Pending \<and> int (length sizes) \<le> int n - 0)) \<and>
         (sizes \<noteq> [] \<and> 0 < int n \<longrightarrow> ys \<noteq> []) \<and>
         (e = Exhausted \<longrightarrow>
            sum_list (map fst ys) = int n - 0 \<and>
            (\<forall>j<length (df0 # rest).
               concat (map (\<lambda>y. snd y ! j) ys) = drop (nat 0) ((df0 # rest) ! j)))"
    by (rule drive_row_InLoop[OF len assms(3) _ _ d]) simp_all
  have ne: "e = Exhausted \<Longrightarrow> sizes \<noteq> []" using d by auto
  have "\<forall>j<length dfs. e = Exhausted \<longrightarrow> DataFrame (concat (map (\<lambda>y. snd y ! j) ys)) = dfs ! j"
  proof (intro allI impI)
    fix j assume j: "j < length dfs" and "e = Exhausted"
    with inv dfs have "concat (map (\<lambda>y. snd y ! j) ys) = (df0 # rest) ! j" by simp
    moreover have "dfs ! j = DataFrame ((df0 # rest) ! j)"
      using j unfolding dfs by (simp only: nth_map length_map)
    ultimately show "DataFrame (concat (map (\<lambda>y. snd y ! j) ys)) = dfs ! j" by simp
  qed
  with inv ne show ?thesis by auto
qed

text \<open>
  Claim C4. \<open>df_by_row\<close> on one or more dataframes of \<open>n\<close> rows each, driven with
  positive requested sizes: once more than \<open>n\<close> sizes are available the generator
  reaches the end of its stream, and a run that reached it has yielded sizes that sum to
  \<open>n\<close>, row slices that concatenate, in order and for each dataframe, to the dataframe
  itself, and at least one partition when \<open>n \<ge> 1\<close>.
\<close>

theorem df_by_row_cover:
  assumes "dfs \<noteq> []"
    and "\<forall>df\<in>set dfs. \<exists>rows. df = DataFrame rows \<and> length rows = n"
    and "\<forall>s\<in>set sizes. 1 \<le> s"
  shows "(n < length sizes \<longrightarrow> snd (row_partitions dfs sizes) = Exhausted) \<and>
         (snd (row_partitions dfs sizes) = Exhausted \<longrightarrow>
            sum_list (map fst (fst (row_partitions dfs sizes))) = int n \<and>
            (\<forall>j<length dfs.
               DataFrame (concat (map (\<lambda>y. snd y ! j) (fst (row_partitions dfs sizes)))) = dfs ! j) \<and>
            (1 \<le> n \<longrightarrow> fst (row_partitions dfs sizes) \<noteq> []))"
  using row_partitions_cover[OF assms, of "fst (row_partitions dfs sizes)" "snd (row_partitions dfs sizes)"]
  by simp

theorem df_by_row_cover_witness:
  "[DataFrame [0, 1, 2, 3, 4 :: nat], DataFrame [0, 1, 4, 9, 16]] \<noteq> [] \<and>
   5 < length [2, 1, 3, 1, 1, 1 :: int] \<and>
   snd (row_partitions [DataFrame [0, 1, 2, 3, 4 :: nat], DataFrame [0, 1, 4, 9, 16]]
          [2, 1, 3, 1, 1, 1]) = Exhausted \<and>
   sum_list (map fst (fst (row_partitions
      [DataFrame [0, 1, 2, 3, 4 :: nat], DataFrame [0, 1, 4, 9, 16]] [2, 1, 3, 1, 1, 1]))) = 5 \<and>
   DataFrame (concat (map (\<lambda>y. snd y ! 1) (fst (row_partitions
      [DataFrame [0, 1, 2, 3, 4 :: nat], DataFrame [0, 1, 4, 9, 16]] [2, 1, 3, 1, 1, 1])))) =
     DataFrame [0, 1, 4, 9, 16] \<and>
   fst (row_partitions [DataFrame [0, 1, 2, 3, 4 :: nat], DataFrame [0, 1, 4, 9, 16]]
          [2, 1, 3, 1, 1, 1]) \<noteq> []"
proof -
  have h1: "[DataFrame [0, 1, 2, 3, 4 :: nat], DataFrame [0, 1, 4, 9, 16]] \<noteq> []" by simp
  have h2: "\<forall>df\<in>set [DataFrame [0, 1, 2, 3, 4 :: nat], DataFrame [0, 1, 4, 9, 16]].
      \<exists>rows. df = DataFrame rows \<and> length rows = 5" by simp
  have h3: "\<forall>s\<in>set [2, 1, 3, 1, 1, 1 :: int]. 1 \<le> s" by simp
  have h4: "5 < length [2, 1, 3, 1, 1, 1 :: int]" by simp
  from df_by_row_cover[OF h1 h2 h3] h4 h1 h2 h3 show ?thesis by simp
qed

subsection \<open>Fixed size\<close>

lemma send_row_yield:
  assumes "send_row g s = (g', Yield n p)"
  shows "n = s \<or> (g' = Last \<and> n \<le> s)"
proof (cases g)
  case (AwaitSize dfs)
  with assms show ?thesis
    by (cases dfs) (auto simp: row_loop_def split: if_splits)
next
  case (InLoop dfs total_size range_start range_end)
  with assms show ?thesis
    by (auto simp: row_loop_def split: if_splits)
next
  case Last
  with assms show ?thesis by simp
next
  case Finished
  with assms show ?thesis by simp
qed

lemma drive_row_fixed:
  "drive send_row g (replicate m k) = (ys, e) \<Longrightarrow>
     (\<forall>i. Suc i < length ys \<longrightarrow> fst (ys ! i) = k) \<and> (ys \<noteq> [] \<longrightarrow> fst (last ys) \<le> k)"
proof (induction m arbitrary: g ys e)
  case 0
  then show ?case by simp
next
  case (Suc m)
  obtain g' out where snd: "send_row g k = (g', out)" by (cases "send_row g k")
  show ?case
  proof (cases out)
    case (Yield n p)
    obtain zs e' where rec: "drive send_row g' (replicate m k) = (zs, e')"
      by (cases "drive send_row g' (replicate m k)")
    with Suc.prems snd Yield have ys: "ys = (n, p) # zs" by simp
    note ih = Suc.IH[OF rec]
    from send_row_yield[of g k g' n p] snd Yield
    consider (full) "n = k" | (rest) "g' = Last" "n \<le> k" by blast
    then show ?thesis
    proof cases
      case full
      have "fst (ys ! i) = k" if "Suc i < length ys" for i
        using that ih full unfolding ys by (cases i) simp_all
      moreover have "fst (last ys) \<le> k" using ih full unfolding ys by simp
      ultimately show ?thesis by blast
    next
      case rest
      with rec have "zs = []" by (simp add: drive_row_Last)
      with rest ys show ?thesis by simp
    qed
  next
    case StopIteration
    with Suc.prems snd show ?thesis by simp
  next
    case (Raise err)
    with Suc.prems snd show ?thesis by simp
  qed
qed

text \<open>
  Claim C7. With a fixed partition size \<open>k \<ge> 1\<close>, every requested size being \<open>k\<close>,
  every partition that \<open>df_by_row\<close> yields has \<open>actual_size = k\<close>, except possibly the
  last one, whose \<open>actual_size\<close> is at most \<open>k\<close>.
\<close>

theorem df_by_row_fixed_size:
  assumes "1 \<le> k"
  shows "(\<forall>i. Suc i < length (fst (row_partitions dfs (replicate m k))) \<longrightarrow>
              fst (fst (row_partitions dfs (replicate m k)) ! i) = k) \<and>
         (fst (row_partitions dfs (replicate m k)) \<noteq> [] \<longrightarrow>
              fst (last (fst (row_partitions dfs (replicate m k)))) \<le> k)"
proof (cases "df_by_row dfs")
  case (Inl err)
  then show ?thesis by (simp add: row_partitions_def partitions_def)
next
  case (Inr g)
  obtain ys e where run: "drive send_row g (replicate m k) = (ys, e)"
    by (cases "drive send_row g (replicate m k)")
  from drive_row_fixed[OF run] Inr run show ?thesis
    by (simp add: row_partitions_def partitions_def)
qed

theorem df_by_row_fixed_size_witness:
  "(1::int) \<le> 3 \<and>
   map fst (fst (row_partitions [DataFrame [1, 2, 3, 4, 5, 6, 7 :: nat], DataFrame [7, 6, 5, 4, 3, 2, 1]]
                   (replicate 4 3))) = [3, 3, 1] \<and>
   fst (fst (row_partitions [DataFrame [1, 2, 3, 4, 5, 6, 7 :: nat], DataFrame [7, 6, 5, 4, 3, 2, 1]]
               (replicate 4 3)) ! 1) = 3 \<and>
   fst (last (fst (row_partitions [DataFrame [1, 2, 3, 4, 5, 6, 7 :: nat], DataFrame [7, 6, 5, 4, 3, 2, 1]]
               (replicate 4 3)))) \<le> 3"
proof -
  have k: "(1::int) \<le> 3" by simp
  have r: "map fst (fst (row_partitions [DataFrame [1, 2, 3, 4, 5, 6, 7 :: nat], DataFrame [7, 6, 5, 4, 3, 2, 1]]
                   (replicate 4 3))) = [3, 3, 1]"
    by code_simp
  have "length (map fst (fst (row_partitions [DataFrame [1, 2, 3, 4, 5, 6, 7 :: nat], DataFrame [7, 6, 5, 4, 3, 2, 1]]
                   (replicate 4 3)))) = 3"
    unfolding r by simp
  then have l: "length (fst (row_partitions [DataFrame [1, 2, 3, 4, 5, 6, 7 :: nat], DataFrame [7, 6, 5, 4, 3, 2, 1]]
                   (replicate 4 3))) = 3"
    by simp
  then have ne: "fst (row_partitions [DataFrame [1, 2, 3, 4, 5, 6, 7 :: nat], DataFrame [7, 6, 5, 4, 3, 2, 1]]
                   (replicate 4 3)) \<noteq> []"
    by auto
  from df_by_row_fixed_size[OF k, of "[DataFrame [1, 2, 3, 4, 5, 6, 7 :: nat], DataFrame [7, 6, 5, 4, 3, 2, 1]]" 4]
  show ?thesis using k r l ne by simp
qed

subsection \<open>Invalid input\<close>

text \<open>
  Claim C9. When no dataframe is supplied, or a value is not a dataframe, or two of the
  dataframes differ in their number of rows, driving \<open>df_by_row\<close> and the generator of
  \<open>df_by_group\<close> raises the \<open>ValueError\<close> of \<open>__validate_dfs_parameter\<close> (the invalid
  input error) at the priming step, and no partition is yielded.
\<close>

theorem invalid_dfs_raise:
  assumes "dfs = [] \<or> NotDataFrame \<in> set dfs \<or>
           (\<exists>xs ys. DataFrame xs \<in> set dfs \<and> DataFrame ys \<in> set dfs \<and> length xs \<noteq> length ys)"
  shows "\<exists>msg. df_by_row dfs = Inl (ValueError msg) \<and>
               df_by_group groupby dfs = Inl (ValueError msg) \<and>
               row_partitions dfs sizes = ([], Raised (ValueError msg)) \<and>
               group_partitions groupby dfs sizes = ([], Raised (ValueError msg))"
proof -
  from validate_Inl_ValueError[OF assms] obtain msg where
    "validate_dfs_parameter dfs = Inl (ValueError msg)" by blast
  then have "df_by_row dfs = Inl (ValueError msg) \<and>
               df_by_group groupby dfs = Inl (ValueError msg) \<and>
               row_partitions dfs sizes = ([], Raised (ValueError msg)) \<and>
               group_partitions groupby dfs sizes = ([], Raised (ValueError msg))"
    by (simp add: df_by_row_def df_by_group_def row_partitions_def group_partitions_def
          partitions_def)
  then show ?thesis by (rule exI)
qed

theorem invalid_dfs_raise_witness:
  "(\<exists>xs ys. DataFrame xs \<in> set [DataFrame [1, 2, 3, 4, 5, 6, 7 :: nat], DataFrame [1, 2, 3, 4, 5, 6, 7, 8]] \<and>
            DataFrame ys \<in> set [DataFrame [1, 2, 3, 4, 5, 6, 7 :: nat], DataFrame [1, 2, 3, 4, 5, 6, 7, 8]] \<and>
            length xs \<noteq> length ys) \<and>
   (\<exists>msg. df_by_row [DataFrame [1, 2, 3, 4, 5, 6, 7 :: nat], DataFrame [1, 2, 3, 4, 5, 6, 7, 8]]
            = Inl (ValueError msg) \<and>
          df_by_group (groupby_key id) [DataFrame [1, 2, 3, 4, 5, 6, 7 :: nat], DataFrame [1, 2, 3, 4, 5, 6, 7, 8]]
            = Inl (ValueError msg) \<and>
          row_partitions [DataFrame [1, 2, 3, 4, 5, 6, 7 :: nat], DataFrame [1, 2, 3, 4, 5, 6, 7, 8]] [3, 3, 3]
            = ([], Raised (ValueError msg)) \<and>
          group_partitions (groupby_key id)
             [DataFrame [1, 2, 3, 4, 5, 6, 7 :: nat], DataFrame [1, 2, 3, 4, 5, 6, 7, 8]] [3, 3, 3]
            = ([], Raised (ValueError msg)))"
proof -
  have "DataFrame [1, 2, 3, 4, 5, 6, 7 :: nat] \<in> set [DataFrame [1, 2, 3, 4, 5, 6, 7 :: nat], DataFrame [1, 2, 3, 4, 5, 6, 7, 8]] \<and>
        DataFrame [1, 2, 3, 4, 5, 6, 7, 8 :: nat] \<in> set [DataFrame [1, 2, 3, 4, 5, 6, 7 :: nat], DataFrame [1, 2, 3, 4, 5, 6, 7, 8]] \<and>
        length [1, 2, 3, 4, 5, 6, 7 :: nat] \<noteq> length [1, 2, 3, 4, 5, 6, 7, 8 :: nat]"
    by simp
  then have h: "\<exists>xs ys. DataFrame xs \<in> set [DataFrame [1, 2, 3, 4, 5, 6, 7 :: nat], DataFrame [1, 2, 3, 4, 5, 6, 7, 8]] \<and>
            DataFrame ys \<in> set [DataFrame [1, 2, 3, 4, 5, 6, 7 :: nat], DataFrame [1, 2, 3, 4, 5, 6, 7, 8]] \<and>
            length xs \<noteq> length ys"
    by blast
  then have "[DataFrame [1, 2, 3, 4, 5, 6, 7 :: nat], DataFrame [1, 2, 3, 4, 5, 6, 7, 8]] = [] \<or>
     NotDataFrame \<in> set [DataFrame [1, 2, 3, 4, 5, 6, 7 :: nat], DataFrame [1, 2, 3, 4, 5, 6, 7, 8]] \<or>
     (\<exists>xs ys. DataFrame xs \<in> set [DataFrame [1, 2, 3, 4, 5, 6, 7 :: nat], DataFrame [1, 2, 3, 4, 5, 6, 7, 8]] \<and>
            DataFrame ys \<in> set [DataFrame [1, 2, 3, 4, 5, 6, 7 :: nat], DataFrame [1, 2, 3, 4, 5, 6, 7, 8]] \<and>
            length xs \<noteq> length ys)"
    by (intro disjI2)
  from invalid_dfs_raise[OF this, of "groupby_key id" "[3, 3, 3]"]
  have "\<exists>msg. df_by_row [DataFrame [1, 2, 3, 4, 5, 6, 7 :: nat], DataFrame [1, 2, 3, 4, 5, 6, 7, 8]]
            = Inl (ValueError msg) \<and>
          df_by_group (groupby_key id) [DataFrame [1, 2, 3, 4, 5, 6, 7 :: nat], DataFrame [1, 2, 3, 4, 5, 6, 7, 8]]
            = Inl (ValueError msg) \<and>
          row_partitions [DataFrame [1, 2, 3, 4, 5, 6, 7 :: nat], DataFrame [1, 2, 3, 4, 5, 6, 7, 8]] [3, 3, 3]
            = ([], Raised (ValueError msg)) \<and>
          group_partitions (groupby_key id)
             [DataFrame [1, 2, 3, 4, 5, 6, 7 :: nat], DataFrame [1, 2, 3, 4, 5, 6, 7, 8]] [3, 3, 3]
            = ([], Raised (ValueError msg))" .
  with h show ?thesis by (rule conjI)
qed

subsection \<open>Deprecated names\<close>

text \<open>
  Claim C10. The deprecated partitioners return what their replacements return:
  \<open>dfs_by_row\<close> and \<open>partition_dfs_by_chunk\<close> the generator of \<open>df_by_row\<close> on the
  same dataframes, hence the same partition stream for every sequence of requested sizes,
  and \<open>dfs_by_group\<close> the partition function of \<open>df_by_group\<close> with the same arguments.
  Each differs from its replacement only by the one warning it logs.
\<close>

theorem deprecated_partitioners_equal:
  "snd (dfs_by_row dfs) = df_by_row dfs \<and>
   snd (partition_dfs_by_chunk dfs) = df_by_row dfs \<and>
   snd (dfs_by_group groupby) = df_by_group groupby \<and>
   partitions send_row (snd (dfs_by_row dfs)) sizes = row_partitions dfs sizes \<and>
   partitions send_row (snd (partition_dfs_by_chunk dfs)) sizes = row_partitions dfs sizes \<and>
   partitions send_group (snd (dfs_by_group groupby) dfs) sizes = group_partitions groupby dfs sizes \<and>
   length (fst (dfs_by_row dfs)) = 1 \<and>
   length (fst (partition_dfs_by_chunk dfs)) = 1 \<and>
   length (fst (dfs_by_group groupby)) = 1"
  by (simp add: dfs_by_row_def partition_dfs_by_chunk_def dfs_by_group_def
        row_partitions_def group_partitions_def)

section \<open>Properties of \<open>ParallelFunction\<close>\<close>

lemma is_nested_parallelism_iff:
  "is_nested_parallelism file stack \<longleftrightarrow>
     (\<exists>fr\<in>set stack. co_name fr = ''apply_function'' \<and> co_filename fr = file)"
  by (induction stack) auto

lemma legacy_arguments_error:
  "legacy_arguments ext split_arg partition_on partition_with initial_size fixed_size = Inl e
     \<Longrightarrow> \<exists>msg. e = ValueError msg"
  by (cases partition_on; cases partition_with)
     (auto simp: legacy_arguments_def Let_def split: if_splits)

lemma legacy_arguments_keeps_set:
  assumes "legacy_arguments ext split_arg partition_on partition_with initial_size fixed_size
             = Inr (split', initial', fixed')"
  shows "Option.is_none initial' = Option.is_none initial_size"
    and "Option.is_none fixed' = Option.is_none fixed_size"
  using assms
  by (cases partition_on; cases partition_with;
      auto simp: legacy_arguments_def legacy_partition_size_def Let_def
           split: if_splits option.splits partition_size.splits)+

lemma partition_size_validator_error:
  "partition_size_validator attribute_name v = Some e \<Longrightarrow> \<exists>msg. e = ValueError msg"
  by (auto simp: partition_size_validator_def split: option.splits if_splits)

lemma validate_function_signature_error:
  "validate_function_signature sig = Some e \<Longrightarrow> \<exists>msg. e = ValueError msg"
  by (auto simp: validate_function_signature_def split: if_splits)

lemma init_error:
  "init_ParallelFunction ext kwargs split_arg partition_on partition_with initial_size fixed_size = Inl e
     \<Longrightarrow> \<exists>msg. e = ValueError msg"
  unfolding init_ParallelFunction_def Let_def
  by (auto split: sum.splits prod.splits option.splits if_splits
        dest: legacy_arguments_error partition_size_validator_error
              validate_function_signature_error)

lemma init_both_sizes:
  "\<exists>msg. init_ParallelFunction ext kwargs split_arg partition_on partition_with (Some a) (Some b)
            = Inl (ValueError msg)"
proof (cases "legacy_arguments ext split_arg partition_on partition_with (Some a) (Some b)")
  case (Inl e)
  with legacy_arguments_error[OF Inl] show ?thesis
    by (auto simp: init_ParallelFunction_def)
next
  case (Inr r)
  obtain split' initial' fixed' where r: "r = (split', initial', fixed')" by (cases r)
  from legacy_arguments_keeps_set[OF Inr[unfolded r]]
  have set: "\<not> Option.is_none initial'" "\<not> Option.is_none fixed'" by simp_all
  show ?thesis
  proof (cases "partition_size_validator ''initial_partition_size'' initial'")
    case (Some e)
    with partition_size_validator_error[OF Some] Inr r show ?thesis
      by (auto simp: init_ParallelFunction_def)
  next
    case None
    note v1 = None
    show ?thesis
    proof (cases "partition_size_validator ''fixed_partition_size'' fixed'")
      case (Some e)
      with partition_size_validator_error[OF Some] Inr r v1 show ?thesis
        by (auto simp: init_ParallelFunction_def)
    next
      case None
      with Inr r v1 set show ?thesis
        by (simp add: init_ParallelFunction_def Let_def)
    qed
  qed
qed

lemma observe_all_Nil: "observe_all ext [] estimator = estimator"
  by (cases estimator) (simp_all add: observe_all_def)

lemma observe_all_Cons:
  "observe_all ext observations
     (map_option (\<lambda>e. add_partition_trace ext e n duration) estimator) =
   observe_all ext ((n, duration) # observations) estimator"
  by (cases estimator) (simp_all add: observe_all_def)

lemma count_tasks_simps:
  "count_tasks [] = 0"
  "count_tasks (TaskSubmitted # events) = Suc (count_tasks events)"
  "count_tasks (SessionOpened # events) = count_tasks events"
  "count_tasks (PreloadValue # events) = count_tasks events"
  "count_tasks (SessionClosed # events) = count_tasks events"
  "count_tasks (ProfilePrinted # events) = count_tasks events"
  "count_tasks (TraceExported path # events) = count_tasks events"
  "count_tasks (LogInfo msg k # events) = count_tasks events"
  "count_tasks (LogDebug msg # events) = count_tasks events"
  "count_tasks (LogWarning msg # events) = count_tasks events"
  "count_tasks (xs @ ys) = count_tasks xs + count_tasks ys"
  "count_tasks (replicate k TaskSubmitted) = k"
  by (simp_all add: count_tasks_def)

lemma scatter_gather_observations:
  "scatter_gather fuel ext task generator estimator initial_size fixed_size results submitted
     = (out, estimator', submitted') \<Longrightarrow>
   \<exists>observations.
     estimator' = observe_all ext observations estimator \<and>
     submitted + length observations \<le> submitted' \<and>
     ((\<exists>rs. out = Some (Inr rs)) \<longrightarrow> submitted + length observations = submitted')"
proof (induction fuel arbitrary: generator estimator initial_size results submitted)
  case 0
  then have "estimator' = observe_all ext [] estimator \<and>
     submitted + length ([] :: (int \<times> nat) list) \<le> submitted' \<and>
     ((\<exists>rs. out = Some (Inr rs)) \<longrightarrow> submitted + length ([] :: (int \<times> nat) list) = submitted')"
    by (simp add: observe_all_Nil)
  then show ?case by blast
next
  case (Suc fuel)
  have stop: ?case
    if "estimator' = estimator" "submitted \<le> submitted'"
       "(\<exists>rs. out = Some (Inr rs)) \<longrightarrow> submitted = submitted'"
  proof -
    from that have "estimator' = observe_all ext [] estimator \<and>
       submitted + length ([] :: (int \<times> nat) list) \<le> submitted' \<and>
       ((\<exists>rs. out = Some (Inr rs)) \<longrightarrow> submitted + length ([] :: (int \<times> nat) list) = submitted')"
      by (simp add: observe_all_Nil)
    then show ?thesis by blast
  qed
  show ?case
  proof (cases "requested_size ext estimator initial_size fixed_size")
    case (Inl e)
    with Suc.prems show ?thesis by (intro stop) auto
  next
    case (Inr size_req)
    obtain generator' res where snd: "send ext generator size_req = (generator', res)"
      by (cases "send ext generator size_req")
    show ?thesis
    proof (cases res)
      case (Yield actual payload)
      let ?trace = "\<lparr>partition_size = actual, task_time = task_duration ext payload\<rparr>"
      show ?thesis
      proof (cases "task (payload, ?trace)")
        case (Inl e)
        with Suc.prems Inr snd Yield show ?thesis by (intro stop) (auto simp: Let_def)
      next
        case (Inr r)
        obtain result trace' where r: "r = (result, trace')" by (cases r)
        from Suc.prems \<open>requested_size ext estimator initial_size fixed_size = Inr size_req\<close>
          snd Yield Inr r
        have "scatter_gather fuel ext task generator'
                (map_option
                   (\<lambda>e. add_partition_trace ext e (partition_size trace') (task_time trace'))
                   estimator)
                None fixed_size (result # results) (Suc submitted)
              = (out, estimator', submitted')"
          by (simp add: Let_def)
        from Suc.IH[OF this] obtain observations where
          est: "estimator' = observe_all ext observations
             (map_option
                (\<lambda>e. add_partition_trace ext e (partition_size trace') (task_time trace'))
                estimator)"
          and le: "Suc submitted + length observations \<le> submitted'"
          and eq: "(\<exists>rs. out = Some (Inr rs)) \<longrightarrow> Suc submitted + length observations = submitted'"
          by blast
        let ?obs = "(partition_size trace', task_time trace') # observations"
        have "estimator' = observe_all ext ?obs estimator \<and>
              submitted + length ?obs \<le> submitted' \<and>
              ((\<exists>rs. out = Some (Inr rs)) \<longrightarrow> submitted + length ?obs = submitted')"
          using est le eq by (simp add: observe_all_Cons)
        then show ?thesis by blast
      qed
    next
      case StopIteration
      with Suc.prems Inr snd show ?thesis by (intro stop) auto
    next
      case (Raise err)
      with Suc.prems Inr snd show ?thesis by (intro stop) auto
    qed
  qed
qed

lemma parallel_call_observations:
  "\<exists>observations.
     partition_size_estimator (fst (snd (parallel_call fuel ext backend allows_nested self a))) =
       observe_all ext observations (partition_size_estimator self) \<and>
     length observations \<le> count_tasks (snd (snd (parallel_call fuel ext backend allows_nested self a))) \<and>
     ((\<exists>r. fst (parallel_call fuel ext backend allows_nested self a) = Some (Inr r)) \<longrightarrow>
        length observations = count_tasks (snd (snd (parallel_call fuel ext backend allows_nested self a))))"
  (is "\<exists>observations. ?P observations")
proof -
  have keep: "?P []"
    if "fst (snd (parallel_call fuel ext backend allows_nested self a)) = self"
       "\<nexists>r. fst (parallel_call fuel ext backend allows_nested self a) = Some (Inr r)"
    using that by (simp add: observe_all_Nil)
  show ?thesis
  proof (cases "assign ext (function_signature self) a")
    case (Inl e)
    then have "?P []" by (intro keep) (auto simp: parallel_call_def)
    then show ?thesis by blast
  next
    case (Inr named_args)
    note asg = Inr
    show ?thesis
    proof (cases "case split self of
                   None \<Rightarrow> Inl (TypeError ''NoneType object is not callable'')
                 | Some split_function \<Rightarrow> split_function named_args")
      case (Inl e)
      with asg have "?P []" by (intro keep) (auto simp: parallel_call_def)
      then show ?thesis by blast
    next
      case (Inr sp)
      obtain non_partitioned_args partition_generator where
        sp: "sp = (non_partitioned_args, partition_generator)" by (cases sp)
      show ?thesis
      proof (cases "get_user_partition_sizes self a")
        case (Inl e)
        with asg Inr sp have "?P []" by (intro keep) (auto simp: parallel_call_def)
        then show ?thesis by blast
      next
        case sizes: (Inr s)
        obtain initial_size fixed_size where s: "s = (initial_size, fixed_size)" by (cases s)
        let ?task = "\<lambda>part. apply_function ext (func self) non_partitioned_args part
                             (if allows_nested then Some backend else None)"
        obtain out estimator' submitted where
          sg: "scatter_gather fuel ext ?task partition_generator (partition_size_estimator self)
                 initial_size fixed_size [] 0 = (out, estimator', submitted)"
          by (cases "scatter_gather fuel ext ?task partition_generator
                       (partition_size_estimator self) initial_size fixed_size [] 0")
        from scatter_gather_observations[OF sg] obtain observations where
          obs: "estimator' = observe_all ext observations (partition_size_estimator self)"
          and le: "length observations \<le> submitted"
          and eq: "(\<exists>rs. out = Some (Inr rs)) \<longrightarrow> length observations = submitted"
          by auto
        have e1: "partition_size_estimator
                (fst (snd (parallel_call fuel ext backend allows_nested self a))) = estimator'"
          using asg Inr sp sizes s sg
          by (simp add: parallel_call_def Let_def split: option.splits sum.splits)
        have e2: "count_tasks (snd (snd (parallel_call fuel ext backend allows_nested self a)))
                    = submitted"
          using asg Inr sp sizes s sg
          by (simp add: parallel_call_def Let_def count_tasks_simps split: option.splits sum.splits)
        have e3: "(\<exists>r. fst (parallel_call fuel ext backend allows_nested self a) = Some (Inr r))
                    \<longrightarrow> (\<exists>rs. out = Some (Inr rs))"
          using asg Inr sp sizes s sg
          by (auto simp: parallel_call_def Let_def split: option.splits sum.splits)
        from obs le eq e1 e2 e3 have "?P observations" by simp
        then show ?thesis by blast
      qed
    qed
  qed
qed

lemma call_observations:
  "\<exists>observations.
     partition_size_estimator (fst (snd (call_ParallelFunction fuel ext env self a))) =
       observe_all ext observations (partition_size_estimator self) \<and>
     length observations \<le> count_tasks (snd (snd (call_ParallelFunction fuel ext env self a))) \<and>
     ((\<exists>r. fst (call_ParallelFunction fuel ext env self a) = Some (Inr r)) \<longrightarrow>
        length observations = count_tasks (snd (snd (call_ParallelFunction fuel ext env self a))))"
  (is "\<exists>observations. ?P observations")
proof -
  let ?allows = "case current_backend env of
               None \<Rightarrow> False
             | Some backend \<Rightarrow> allows_nested_tasks ext backend"
  show ?thesis
  proof (cases "is_nested_parallelism (module_file ext) (call_stack env) \<and> \<not> ?allows")
    case True
    then have "?P []"
      by (simp add: call_ParallelFunction_def observe_all_Nil count_tasks_simps)
    then show ?thesis by blast
  next
    case False
    show ?thesis
    proof (cases "current_backend env")
      case None
      with False have "?P []"
        by (simp add: call_ParallelFunction_def observe_all_Nil count_tasks_simps)
      then show ?thesis by blast
    next
      case (Some backend)
      with False have "call_ParallelFunction fuel ext env self a =
                       parallel_call fuel ext backend (allows_nested_tasks ext backend) self a"
        by (auto simp: call_ParallelFunction_def Let_def)
      then show ?thesis
        using parallel_call_observations[of fuel ext backend "allows_nested_tasks ext backend" self a]
        by simp
    qed
  qed
qed

lemma parallel_call_factory:
  "parallel_call fuel ext backend allows_nested
      (self\<lparr>partition_size_estimator_factory := factory\<rparr>) a =
   (case parallel_call fuel ext backend allows_nested self a of
      (result, after, events) \<Rightarrow>
        (result, after\<lparr>partition_size_estimator_factory := factory\<rparr>, events))"
  unfolding parallel_call_def get_user_partition_sizes_def Let_def
  by (simp split: sum.splits prod.splits option.splits)

text \<open>
  Claim C2, as amended. When no fixed partition size is set, the estimator is made by the
  factory once, by the constructor, and held by the object; \<open>__call__\<close> never calls the
  factory (its result, the events and the object it leaves are the same whatever the
  factory is); every invocation works on the estimator that the object holds and leaves
  it there with the observations of that invocation added in order, at most one for each
  task it submitted and exactly one for each when the invocation returns a result, so
  that what the estimator has observed carries over to the next invocation.
\<close>

theorem estimator_made_at_construction:
  "(init_ParallelFunction ext kwargs split_arg partition_on partition_with initial_size None
      = Inr self \<longrightarrow>
    partition_size_estimator self = Some (partition_size_estimator_factory kwargs ())) \<and>
   call_ParallelFunction fuel ext env (self'\<lparr>partition_size_estimator_factory := factory\<rparr>) a =
     (case call_ParallelFunction fuel ext env self' a of
        (result, after, events) \<Rightarrow>
          (result, after\<lparr>partition_size_estimator_factory := factory\<rparr>, events)) \<and>
   (\<exists>observations.
      partition_size_estimator (fst (snd (call_ParallelFunction fuel ext env self' a))) =
        observe_all ext observations (partition_size_estimator self') \<and>
      length observations \<le> count_tasks (snd (snd (call_ParallelFunction fuel ext env self' a))) \<and>
      ((\<exists>r. fst (call_ParallelFunction fuel ext env self' a) = Some (Inr r)) \<longrightarrow>
         length observations = count_tasks (snd (snd (call_ParallelFunction fuel ext env self' a)))))"
proof (intro conjI)
  show "init_ParallelFunction ext kwargs split_arg partition_on partition_with initial_size None
      = Inr self \<longrightarrow>
    partition_size_estimator self = Some (partition_size_estimator_factory kwargs ())"
  proof
    assume init: "init_ParallelFunction ext kwargs split_arg partition_on partition_with
                    initial_size None = Inr self"
    then obtain split' initial' fixed' where
      leg: "legacy_arguments ext split_arg partition_on partition_with initial_size None
              = Inr (split', initial', fixed')"
      by (auto simp: init_ParallelFunction_def split: sum.splits)
    from legacy_arguments_keeps_set(2)[OF leg] have "Option.is_none fixed'" by simp
    with init leg show "partition_size_estimator self
                          = Some (partition_size_estimator_factory kwargs ())"
      by (auto simp: init_ParallelFunction_def Let_def attrs_kwargs.extend_def
                     ParallelFunction.fields_def ParallelFunction.defs attrs_kwargs.defs
               split: option.splits if_splits)
  qed
next
  show "call_ParallelFunction fuel ext env (self'\<lparr>partition_size_estimator_factory := factory\<rparr>) a =
     (case call_ParallelFunction fuel ext env self' a of
        (result, after, events) \<Rightarrow>
          (result, after\<lparr>partition_size_estimator_factory := factory\<rparr>, events))"
    unfolding call_ParallelFunction_def Let_def
    by (simp add: parallel_call_factory split: option.splits)
next
  show "\<exists>observations.
      partition_size_estimator (fst (snd (call_ParallelFunction fuel ext env self' a))) =
        observe_all ext observations (partition_size_estimator self') \<and>
      length observations \<le> count_tasks (snd (snd (call_ParallelFunction fuel ext env self' a))) \<and>
      ((\<exists>r. fst (call_ParallelFunction fuel ext env self' a) = Some (Inr r)) \<longrightarrow>
         length observations = count_tasks (snd (snd (call_ParallelFunction fuel ext env self' a))))"
    by (rule call_observations)
qed

lemma parallel_total_value:
  "parallel_total = Inr parallel_total_object"
  by (simp add: parallel_total_def parallel_total_object_def init_ParallelFunction_def legacy_arguments_def
        partition_size_validator_def validate_function_signature_def total_kwargs_def
        total_def Let_def)

lemma first_call_value:
  "fst (call_ParallelFunction 10 example_externals plain_environment parallel_total_object
          seven_rows) = Some (Inr 28)"
  "count_tasks (snd (snd (call_ParallelFunction 10 example_externals plain_environment
                            parallel_total_object seven_rows))) = 3"
  "partition_size_estimator parallel_total_object = Some []"
  by code_simp+

theorem estimator_made_at_construction_witness:
  "map_sum id partition_size_estimator parallel_total
     = Inr (Some (partition_size_estimator_factory total_kwargs ())) \<and>
   (\<exists>observations.
      partition_size_estimator
        (fst (snd (call_ParallelFunction 10 example_externals plain_environment
                     parallel_total_object seven_rows))) =
        observe_all example_externals observations (Some []) \<and>
      length observations = 3)"
proof
  obtain self where self: "parallel_total = Inr self"
    using parallel_total_value by blast
  then have "init_ParallelFunction example_externals total_kwargs (Some split_df_by_row)
               None None None None = Inr self"
    by (simp add: parallel_total_def)
  with estimator_made_at_construction[of example_externals total_kwargs "Some split_df_by_row"
         None None None self]
  have est: "partition_size_estimator self = Some (partition_size_estimator_factory total_kwargs ())"
    by blast
  have "map_sum id partition_size_estimator parallel_total = Inr (partition_size_estimator self)"
    unfolding self by simp
  then show "map_sum id partition_size_estimator parallel_total
     = Inr (Some (partition_size_estimator_factory total_kwargs ()))" unfolding est .
next
  from estimator_made_at_construction[where ext = example_externals and fuel = 10
         and env = plain_environment and self' = parallel_total_object and a = seven_rows]
  obtain observations where
    obs: "partition_size_estimator
        (fst (snd (call_ParallelFunction 10 example_externals plain_environment
                     parallel_total_object seven_rows))) =
        observe_all example_externals observations (partition_size_estimator parallel_total_object)"
    and eq: "(\<exists>r. fst (call_ParallelFunction 10 example_externals plain_environment
                        parallel_total_object seven_rows) = Some (Inr r)) \<longrightarrow>
         length observations = count_tasks (snd (snd (call_ParallelFunction 10 example_externals
              plain_environment parallel_total_object seven_rows)))"
    by blast
  from eq have "length observations = 3" unfolding first_call_value by simp
  with obs show "\<exists>observations.
      partition_size_estimator
        (fst (snd (call_ParallelFunction 10 example_externals plain_environment
                     parallel_total_object seven_rows))) =
        observe_all example_externals observations (Some []) \<and>
      length observations = 3"
    unfolding first_call_value by blast
qed

lemma first_invocation_value:
  "map_option (\<lambda>(result, self, events). (result, partition_size_estimator self, events))
     first_invocation =
   Some (Some (Inr 28), Some [(1, 1), (2, 1), (4, 1)],
         [SessionOpened, PreloadValue, TaskSubmitted, TaskSubmitted, TaskSubmitted,
          SessionClosed, LogInfo ''total'' 3])"
  by code_simp

lemma second_invocation_value:
  "map_option (\<lambda>(result, self, events). (result, partition_size_estimator self, events))
     second_invocation =
   Some (Some (Inr 28), Some [(1, 1), (2, 1), (4, 1), (7, 1)],
         [SessionOpened, PreloadValue, TaskSubmitted, SessionClosed, LogInfo ''total'' 1])"
  by code_simp

text \<open>
  Claim C2 as stated fails: the estimator that the first invocation leaves in the object,
  and that the second invocation starts from, holds the three observations of the first
  invocation, while a fresh one holds none; on the same seven rows the first invocation
  submits three tasks (sizes 1, 2, 4) and the second one task (size 8 requested).
\<close>

theorem estimator_fresh_counterexample:
  "estimator_after first_invocation = Some (Some [(1, 1), (2, 1), (4, 1)]) \<and>
   partition_size_estimator_factory total_kwargs () = [] \<and>
   tasks_submitted first_invocation = Some 3 \<and>
   tasks_submitted second_invocation = Some 1"
  by code_simp

lemma init_Inr_signature:
  assumes "init_ParallelFunction ext kwargs split_arg partition_on partition_with initial_size fixed_size
            = Inr self"
  shows "validate_function_signature (signature (func kwargs)) = None"
  using assms unfolding init_ParallelFunction_def Let_def
  by (auto split: sum.splits prod.splits option.splits if_splits)

lemma positional_only_invalid:
  assumes "(arg_name, POSITIONAL_ONLY) \<in> set (args sig)"
    and "\<not> has_var_arg sig" and "\<not> has_var_kwarg sig"
  shows "validate_function_signature sig =
           Some (ValueError ''parafun toolkit does not support positional only parameters yet.'')"
proof -
  from assms(1) have "list_ex (\<lambda>arg. snd arg = POSITIONAL_ONLY) (args sig)"
    unfolding list_ex_iff by force
  with assms(2,3) show ?thesis by (simp add: validate_function_signature_def)
qed

lemma var_args_not_checked:
  "has_var_arg sig \<or> has_var_kwarg sig \<Longrightarrow> validate_function_signature sig = None"
  by (auto simp: validate_function_signature_def)

lemma init_not_positional_error:
  assumes "validate_function_signature (signature (func kwargs)) = None"
  shows "init_ParallelFunction ext kwargs split_arg partition_on partition_with initial_size
           fixed_size \<noteq>
         Inl (ValueError ''parafun toolkit does not support positional only parameters yet.'')"
  using assms
  unfolding init_ParallelFunction_def legacy_arguments_def partition_size_validator_def Let_def
  by (auto split: sum.splits prod.splits option.splits if_splits partition_on_arg.splits)

lemma init_plain:
  assumes "validate_function_signature (signature (func kwargs)) = None"
  shows "init_ParallelFunction ext kwargs split_arg None None None None =
           Inr (attrs_kwargs.extend kwargs
                  (ParallelFunction.fields split_arg None None
                     (Some (partition_size_estimator_factory kwargs ()))
                     (signature (func kwargs))))"
  using assms
  by (simp add: init_ParallelFunction_def legacy_arguments_def partition_size_validator_def
        Let_def)

text \<open>
  Claim C3, as amended. For every target function that declares a positional-only
  parameter and takes neither \<open>*args\<close> nor \<open>**kwargs\<close>, the constructor raises a
  \<open>ValueError\<close>, whatever its other arguments are; with no other argument at fault it
  is the error that names the positional-only parameters. A function that takes
  \<open>*args\<close> or \<open>**kwargs\<close> is not checked: \<open>_validate_function_signature\<close> passes
  it, the constructor never raises the error that names the positional-only parameters,
  whatever its other arguments are, and with no other argument at fault it returns the
  object.
\<close>

theorem positional_only_rejected:
  "((arg_name, POSITIONAL_ONLY) \<in> set (args (signature (func kwargs))) \<and>
    \<not> has_var_arg (signature (func kwargs)) \<and>
    \<not> has_var_kwarg (signature (func kwargs)) \<longrightarrow>
      (\<exists>msg. init_ParallelFunction ext kwargs split_arg partition_on partition_with
                initial_size fixed_size = Inl (ValueError msg)) \<and>
      init_ParallelFunction ext kwargs split_arg None None None None =
        Inl (ValueError ''parafun toolkit does not support positional only parameters yet.'')) \<and>
   (has_var_arg (signature (func kwargs)) \<or> has_var_kwarg (signature (func kwargs)) \<longrightarrow>
      validate_function_signature (signature (func kwargs)) = None \<and>
      init_ParallelFunction ext kwargs split_arg partition_on partition_with
        initial_size fixed_size \<noteq>
        Inl (ValueError ''parafun toolkit does not support positional only parameters yet.'') \<and>
      init_ParallelFunction ext kwargs split_arg None None None None =
        Inr (attrs_kwargs.extend kwargs
               (ParallelFunction.fields split_arg None None
                  (Some (partition_size_estimator_factory kwargs ()))
                  (signature (func kwargs)))))"
proof (intro conjI impI)
  assume h: "(arg_name, POSITIONAL_ONLY) \<in> set (args (signature (func kwargs))) \<and>
    \<not> has_var_arg (signature (func kwargs)) \<and>
    \<not> has_var_kwarg (signature (func kwargs))"
  then have invalid: "validate_function_signature (signature (func kwargs)) =
           Some (ValueError ''parafun toolkit does not support positional only parameters yet.'')"
    using positional_only_invalid[of arg_name "signature (func kwargs)"] by blast
  show "\<exists>msg. init_ParallelFunction ext kwargs split_arg partition_on partition_with
                  initial_size fixed_size = Inl (ValueError msg)"
  proof (cases "init_ParallelFunction ext kwargs split_arg partition_on partition_with
                  initial_size fixed_size")
    case (Inl e)
    with init_error[OF Inl] show ?thesis by auto
  next
    case (Inr self)
    from init_Inr_signature[OF Inr] invalid show ?thesis by simp
  qed
  show "init_ParallelFunction ext kwargs split_arg None None None None =
           Inl (ValueError ''parafun toolkit does not support positional only parameters yet.'')"
    using invalid
    by (simp add: init_ParallelFunction_def legacy_arguments_def partition_size_validator_def
          Let_def)
next
  assume "has_var_arg (signature (func kwargs)) \<or> has_var_kwarg (signature (func kwargs))"
  then show v: "validate_function_signature (signature (func kwargs)) = None"
    by (rule var_args_not_checked)
  from v show "init_ParallelFunction ext kwargs split_arg partition_on partition_with
        initial_size fixed_size \<noteq>
        Inl (ValueError ''parafun toolkit does not support positional only parameters yet.'')"
    by (rule init_not_positional_error)
  from v show "init_ParallelFunction ext kwargs split_arg None None None None =
        Inr (attrs_kwargs.extend kwargs
               (ParallelFunction.fields split_arg None None
                  (Some (partition_size_estimator_factory kwargs ()))
                  (signature (func kwargs))))"
    by (rule init_plain)
qed

theorem positional_only_rejected_witness:
  "init_ParallelFunction example_externals
     (first_kwargs\<lparr>func := (func first_kwargs)\<lparr>signature :=
        \<lparr>args = [(''df'', POSITIONAL_ONLY)], has_var_arg = False, has_var_kwarg = False\<rparr>\<rparr>\<rparr>)
     (Some split_df_by_row) None None None None =
   Inl (ValueError ''parafun toolkit does not support positional only parameters yet.'') \<and>
   validate_function_signature (signature (func first_kwargs)) = None \<and>
   map_sum id function_signature
     (init_ParallelFunction example_externals first_kwargs (Some split_df_by_row)
        None None None None) =
   Inr \<lparr>args = [(''df'', POSITIONAL_ONLY)], has_var_arg = True, has_var_kwarg = False\<rparr> \<and>
   validate_function_signature (signature (func options_kwargs)) = None \<and>
   map_sum id function_signature
     (init_ParallelFunction example_externals options_kwargs (Some split_df_by_row)
        None None None None) =
   Inr \<lparr>args = [(''df'', POSITIONAL_ONLY)], has_var_arg = False, has_var_kwarg = True\<rparr>"
proof -
  have s1: "signature (func first_kwargs) =
              \<lparr>args = [(''df'', POSITIONAL_ONLY)], has_var_arg = True, has_var_kwarg = False\<rparr>"
    by (simp add: first_kwargs_def)
  have s2: "signature (func options_kwargs) =
              \<lparr>args = [(''df'', POSITIONAL_ONLY)], has_var_arg = False, has_var_kwarg = True\<rparr>"
    by (simp add: options_kwargs_def)
  have sel: "\<And>kw sp i f e sg. function_signature
               (attrs_kwargs.extend kw (ParallelFunction.fields sp i f e sg)) = sg"
    by (simp add: attrs_kwargs.extend_def ParallelFunction.fields_def ParallelFunction.defs
          attrs_kwargs.defs)
  have a: "init_ParallelFunction example_externals
     (first_kwargs\<lparr>func := (func first_kwargs)\<lparr>signature :=
        \<lparr>args = [(''df'', POSITIONAL_ONLY)], has_var_arg = False, has_var_kwarg = False\<rparr>\<rparr>\<rparr>)
     (Some split_df_by_row) None None None None =
   Inl (ValueError ''parafun toolkit does not support positional only parameters yet.'')"
    using positional_only_rejected[of "''df''"
     "first_kwargs\<lparr>func := (func first_kwargs)\<lparr>signature :=
        \<lparr>args = [(''df'', POSITIONAL_ONLY)], has_var_arg = False, has_var_kwarg = False\<rparr>\<rparr>\<rparr>"
     example_externals "Some split_df_by_row" None None None None]
    by simp
  have b: "validate_function_signature (signature (func first_kwargs)) = None \<and>
           init_ParallelFunction example_externals first_kwargs (Some split_df_by_row)
             None None None None =
           Inr (attrs_kwargs.extend first_kwargs
                  (ParallelFunction.fields (Some split_df_by_row) None None
                     (Some (partition_size_estimator_factory first_kwargs ()))
                     (signature (func first_kwargs))))"
    using positional_only_rejected[of "''df''" first_kwargs
     example_externals "Some split_df_by_row" None None None None]
    by (simp add: s1)
  have c: "validate_function_signature (signature (func options_kwargs)) = None \<and>
           init_ParallelFunction example_externals options_kwargs (Some split_df_by_row)
             None None None None =
           Inr (attrs_kwargs.extend options_kwargs
                  (ParallelFunction.fields (Some split_df_by_row) None None
                     (Some (partition_size_estimator_factory options_kwargs ()))
                     (signature (func options_kwargs))))"
    using positional_only_rejected[of "''df''" options_kwargs
     example_externals "Some split_df_by_row" None None None None]
    by (simp add: s2)
  from b have b': "map_sum id function_signature
     (init_ParallelFunction example_externals first_kwargs (Some split_df_by_row)
        None None None None) = Inr (signature (func first_kwargs))"
    by (simp add: sel)
  from c have c': "map_sum id function_signature
     (init_ParallelFunction example_externals options_kwargs (Some split_df_by_row)
        None None None None) = Inr (signature (func options_kwargs))"
    by (simp add: sel)
  from a b b' c c' show ?thesis unfolding s1 s2 by (intro conjI) simp_all
qed

text \<open>
  Claim C3 as stated fails: \<open>def first(df, /, *rest)\<close> and
  \<open>def first(df, /, **options)\<close> declare a positional-only parameter and the
  constructor accepts both, since \<open>_validate_function_signature\<close> returns at once for
  a function with \<open>*args\<close> or \<open>**kwargs\<close>.
\<close>

theorem positional_only_with_var_args_counterexample:
  "(''df'', POSITIONAL_ONLY) \<in> set (args (signature (func first_kwargs))) \<and>
   map_sum id function_signature
     (init_ParallelFunction example_externals first_kwargs (Some split_df_by_row)
        None None None None) =
   Inr \<lparr>args = [(''df'', POSITIONAL_ONLY)], has_var_arg = True, has_var_kwarg = False\<rparr> \<and>
   (''df'', POSITIONAL_ONLY) \<in> set (args (signature (func options_kwargs))) \<and>
   map_sum id function_signature
     (init_ParallelFunction example_externals options_kwargs (Some split_df_by_row)
        None None None None) =
   Inr \<lparr>args = [(''df'', POSITIONAL_ONLY)], has_var_arg = False, has_var_kwarg = True\<rparr>"
  by (simp add: init_ParallelFunction_def legacy_arguments_def partition_size_validator_def
        validate_function_signature_def first_kwargs_def options_kwargs_def total_kwargs_def
        total_def Let_def
        attrs_kwargs.extend_def ParallelFunction.fields_def ParallelFunction.defs
        attrs_kwargs.defs)

text \<open>
  Claim C8. With \<open>initial_partition_size\<close> and \<open>fixed_partition_size\<close> both set to
  values other than \<open>None\<close>, the constructor raises a \<open>ValueError\<close>, for every pair of
  such values and whatever the other arguments are; for two integers or callables and no
  legacy argument it is the error that says the two cannot be set simultaneously.
\<close>

theorem both_partition_sizes_rejected:
  "(\<exists>msg. init_ParallelFunction ext kwargs split_arg partition_on partition_with (Some a) (Some b)
            = Inl (ValueError msg)) \<and>
   ((is_int a \<or> callable a) \<and> (is_int b \<or> callable b) \<longrightarrow>
      init_ParallelFunction ext kwargs split_arg None None (Some a) (Some b) =
        Inl (ValueError
          ''`initial_partition_size` and `fixed_partition_size` cannot be set simultaneously.''))"
proof
  show "\<exists>msg. init_ParallelFunction ext kwargs split_arg partition_on partition_with (Some a) (Some b)
            = Inl (ValueError msg)"
    by (rule init_both_sizes)
  show "(is_int a \<or> callable a) \<and> (is_int b \<or> callable b) \<longrightarrow>
      init_ParallelFunction ext kwargs split_arg None None (Some a) (Some b) =
        Inl (ValueError
          ''`initial_partition_size` and `fixed_partition_size` cannot be set simultaneously.'')"
    by (auto simp: init_ParallelFunction_def legacy_arguments_def partition_size_validator_def
          Let_def)
qed

theorem both_partition_sizes_rejected_witness:
  "init_ParallelFunction example_externals total_kwargs (Some split_df_by_row) None None
     (Some (SizeInt 10)) (Some (SizeInt 20)) =
   Inl (ValueError
     ''`initial_partition_size` and `fixed_partition_size` cannot be set simultaneously.'')"
  using both_partition_sizes_rejected[of example_externals total_kwargs "Some split_df_by_row"
          None None "SizeInt 10" "SizeInt 20"]
  by simp

text \<open>
  Claim C5. When the ambient backend is \<open>None\<close>, \<open>__call__\<close> returns or raises what
  the function itself returns or raises on the same arguments; the object is left as it
  was and the only effect is one message logged.
\<close>

theorem sequential_fallback_without_backend:
  assumes "current_backend env = None"
  shows "fst (call_ParallelFunction fuel ext env self a) = Some (run (func self) a) \<and>
         fst (snd (call_ParallelFunction fuel ext env self a)) = self \<and>
         (snd (snd (call_ParallelFunction fuel ext env self a)) =
            [LogDebug (''backend does not support nested parallelism. Running ''
                       @ name (func self) @ '' sequentially.'')] \<or>
          snd (snd (call_ParallelFunction fuel ext env self a)) =
            [LogWarning (''no parallel backend engine set, run `''
                         @ str_of (function_name self) @ ''(...)` sequentially.'')])"
  using assms by (simp add: call_ParallelFunction_def)

theorem sequential_fallback_without_backend_witness:
  "current_backend no_backend_environment = None \<and>
   fst (call_ParallelFunction 10 example_externals no_backend_environment
          parallel_total_object seven_rows) = Some (Inr 28) \<and>
   run (func parallel_total_object) seven_rows = Inr 28"
proof -
  have h: "current_backend no_backend_environment = None"
    by (simp add: no_backend_environment_def)
  have r: "run (func parallel_total_object) seven_rows = Inr 28"
    by (simp add: parallel_total_object_def total_kwargs_def total_def seven_rows_def
          attrs_kwargs.extend_def attrs_kwargs.defs)
  from sequential_fallback_without_backend[OF h, of 10 example_externals parallel_total_object
         seven_rows]
  show ?thesis unfolding r using h by simp
qed

text \<open>
  Claim C6. When the call stack holds a frame of \<open>apply_function\<close> of this module and
  the backend does not allow nested tasks (or there is none), \<open>__call__\<close> returns or
  raises what the function does on the original arguments; the only effect is the debug
  message: no session is opened and no task submitted.
\<close>

theorem nested_call_runs_sequentially:
  assumes "\<exists>fr\<in>set (call_stack env).
             co_name fr = ''apply_function'' \<and> co_filename fr = module_file ext"
    and "case current_backend env of
           None \<Rightarrow> True
         | Some backend \<Rightarrow> \<not> allows_nested_tasks ext backend"
  shows "call_ParallelFunction fuel ext env self a =
           (Some (run (func self) a), self,
            [LogDebug (''backend does not support nested parallelism. Running ''
                       @ name (func self) @ '' sequentially.'')])"
proof -
  from assms(1) have "is_nested_parallelism (module_file ext) (call_stack env)"
    by (simp add: is_nested_parallelism_iff)
  with assms(2) show ?thesis
    by (simp add: call_ParallelFunction_def split: option.splits)
qed

theorem nested_call_runs_sequentially_witness:
  "call_ParallelFunction 10 example_externals nested_environment parallel_total_object seven_rows =
     (Some (Inr 28), parallel_total_object,
      [LogDebug ''backend does not support nested parallelism. Running total sequentially.''])"
proof -
  have h1: "\<exists>fr\<in>set (call_stack nested_environment).
             co_name fr = ''apply_function'' \<and> co_filename fr = module_file example_externals"
    by (simp add: nested_environment_def example_externals_def)
  have h2: "case current_backend nested_environment of
           None \<Rightarrow> True
         | Some backend \<Rightarrow> \<not> allows_nested_tasks example_externals backend"
    by (simp add: nested_environment_def example_externals_def)
  have r: "run (func parallel_total_object) seven_rows = Inr 28"
    by (simp add: parallel_total_object_def total_kwargs_def total_def seven_rows_def
          attrs_kwargs.extend_def attrs_kwargs.defs)
  have n: "name (func parallel_total_object) = ''total''"
    by (simp add: parallel_total_object_def total_kwargs_def total_def
          attrs_kwargs.extend_def attrs_kwargs.defs)
  from nested_call_runs_sequentially[OF h1 h2, of 10 parallel_total_object seven_rows]
  show ?thesis unfolding r n by simp
qed

end
